theory Spec2Isabelle
  imports Complex_Main
begin

section \<open>Property schemas\<close>

text \<open>
  The generators build JSON-Schema fragments as Python dictionaries with the keys
  \<^verbatim>\<open>type\<close>, \<^verbatim>\<open>description\<close>, \<^verbatim>\<open>business_type\<close>, \<^verbatim>\<open>properties\<close> and \<^verbatim>\<open>items\<close>
  (\<^verbatim>\<open>jsonl_schema_generator.py\<close>, \<^verbatim>\<open>csv_schema_generator.py\<close>).

  \<open>tv\<close> is what the code stores under \<^verbatim>\<open>type\<close> and \<^verbatim>\<open>business_type\<close>: a string, a list
  (whose elements are again such values, since the merger can append a list to a list), or
  \<open>TNone\<close>, which stands for Python's \<^verbatim>\<open>None\<close>: the result of \<^verbatim>\<open>d.get("type")\<close> when the key is
  missing. Python's \<^verbatim>\<open>==\<close> on these values is structural equality.

  \<open>pschema\<close> is one such dictionary: a field that is \<open>TNone\<close> or \<open>None\<close> is a missing key, so
  the empty dictionary \<^verbatim>\<open>{}\<close> is \<open>empty_dict\<close>. A dictionary of properties is an association
  list in insertion order, with pairwise different keys as in every Python dictionary.
\<close>

datatype tv = TNone | TStr string | TList "tv list"

datatype pschema = Prop (p_type: tv) (p_description: "string option") (p_business_type: tv)
  (p_properties: "(string \<times> pschema) list option") (p_items: "pschema option")

type_synonym props = "(string \<times> pschema) list"

definition empty_dict :: pschema where
  "empty_dict = Prop TNone None TNone None None"

definition set_type :: "tv \<Rightarrow> pschema \<Rightarrow> pschema" where
  "set_type t p = Prop t (p_description p) (p_business_type p) (p_properties p) (p_items p)"

definition set_business_type :: "tv \<Rightarrow> pschema \<Rightarrow> pschema" where
  "set_business_type b p = Prop (p_type p) (p_description p) b (p_properties p) (p_items p)"

definition set_properties :: "props \<Rightarrow> pschema \<Rightarrow> pschema" where
  "set_properties ps p = Prop (p_type p) (p_description p) (p_business_type p) (Some ps) (p_items p)"

definition set_items :: "pschema \<Rightarrow> pschema \<Rightarrow> pschema" where
  "set_items i p = Prop (p_type p) (p_description p) (p_business_type p) (p_properties p) (Some i)"

text \<open>\<^verbatim>\<open>d.get("properties", {})\<close> and \<^verbatim>\<open>d.get("items", {})\<close>.\<close>

definition get_props :: "pschema \<Rightarrow> props" where
  "get_props p = (case p_properties p of None \<Rightarrow> [] | Some ps \<Rightarrow> ps)"

definition get_items :: "pschema \<Rightarrow> pschema" where
  "get_items p = (case p_items p of None \<Rightarrow> empty_dict | Some i \<Rightarrow> i)"

text \<open>\<^verbatim>\<open>d[k] = v\<close>: an existing key keeps its position, a new key goes to the end.\<close>

definition dict_set :: "string \<Rightarrow> 'a \<Rightarrow> (string \<times> 'a) list \<Rightarrow> (string \<times> 'a) list" where
  "dict_set k v d =
     (if k \<in> fst ` set d then map (\<lambda>(k', v'). if k' = k then (k', v) else (k', v')) d
      else d @ [(k, v)])"

text \<open>Python truth value, \<^verbatim>\<open>isinstance(x, list)\<close>, \<^verbatim>\<open>xs.append(x)\<close> and \<^verbatim>\<open>x in xs\<close>.\<close>

fun truthy :: "tv \<Rightarrow> bool" where
  "truthy TNone = False"
| "truthy (TStr s) = (s \<noteq> [])"
| "truthy (TList xs) = (xs \<noteq> [])"

fun is_list :: "tv \<Rightarrow> bool" where
  "is_list (TList xs) = True"
| "is_list _ = False"

fun append_tv :: "tv \<Rightarrow> tv \<Rightarrow> tv" where
  "append_tv (TList xs) x = TList (xs @ [x])"
| "append_tv t x = t"

fun tv_in :: "tv \<Rightarrow> tv \<Rightarrow> bool" where
  "tv_in x (TList xs) = (x \<in> set xs)"
| "tv_in x _ = False"

section \<open>The schema merger\<close>

text \<open>
  \<^verbatim>\<open>_merge_properties\<close> (\<^verbatim>\<open>jsonl_schema_generator.py\<close>, lines 139-239) updates the dictionary
  \<^verbatim>\<open>merged\<close> in place; the model returns the updated value. The inputs are taken to share no
  list or dictionary object with each other, so that an in-place \<^verbatim>\<open>append\<close> is seen only through
  the entry of \<^verbatim>\<open>merged\<close> it belongs to.

  \<open>union_type\<close> is lines 207-219 (the value left under \<^verbatim>\<open>existing["type"]\<close>),
  \<open>merge_business_type\<close> is lines 223-237 and \<open>merge_item_type\<close> is lines 181-194.
\<close>

definition union_type :: "tv \<Rightarrow> tv \<Rightarrow> tv" where
  "union_type existing_type value_type =
     (if existing_type \<noteq> value_type then
        (if is_list existing_type then
           (if \<not> tv_in value_type existing_type then append_tv existing_type value_type
            else existing_type)
         else if is_list value_type then
           (if \<not> tv_in existing_type value_type then append_tv value_type existing_type
            else existing_type)
         else TList [existing_type, value_type])
      else existing_type)"

definition merge_business_type :: "pschema \<Rightarrow> pschema \<Rightarrow> pschema" where
  "merge_business_type existing v =
     (let existing_business_type = p_business_type existing;
          value_business_type = p_business_type v
      in if existing_business_type \<noteq> value_business_type then
           (if is_list existing_business_type then
              (if truthy value_business_type
                  \<and> \<not> tv_in value_business_type existing_business_type
               then set_business_type
                      (append_tv existing_business_type value_business_type) existing
               else existing)
            else if is_list value_business_type then
              (if truthy existing_business_type
                  \<and> \<not> tv_in existing_business_type value_business_type
               then set_business_type
                      (append_tv value_business_type existing_business_type) existing
               else existing)
            else if truthy existing_business_type \<and> truthy value_business_type then
              set_business_type (TList [existing_business_type, value_business_type]) existing
            else if truthy value_business_type then
              set_business_type value_business_type existing
            else existing)
         else existing)"

definition merge_item_type :: "pschema \<Rightarrow> pschema \<Rightarrow> pschema" where
  "merge_item_type existing_items value_items =
     (let existing_item_type = p_type existing_items;
          value_item_type = p_type value_items
      in if truthy existing_item_type \<and> truthy value_item_type then
           (if existing_item_type \<noteq> value_item_type then
              (if is_list existing_item_type then
                 (if \<not> tv_in value_item_type existing_item_type
                  then set_type (append_tv existing_item_type value_item_type) existing_items
                  else existing_items)
               else if is_list value_item_type then
                 (if \<not> tv_in existing_item_type value_item_type
                  then set_type (append_tv value_item_type existing_item_type) existing_items
                  else existing_items)
               else set_type (TList [existing_item_type, value_item_type]) existing_items)
            else existing_items)
         else existing_items)"

lemma size_get_props: "size_list (size_prod (\<lambda>x. 0) size) (get_props v) < size v"
  by (cases v) (auto simp: get_props_def split: option.splits)

lemma size_get_items_props:
  "size_list (size_prod (\<lambda>x. 0) size) (get_props (get_items v)) < size v"
proof (cases "p_items v")
  case None
  then show ?thesis by (cases v) (simp add: get_items_def get_props_def empty_dict_def)
next
  case (Some i)
  then have "size i < size v" by (cases v) simp
  moreover have "get_items v = i" using Some by (simp add: get_items_def)
  ultimately show ?thesis using size_get_props [of i] by simp
qed

text \<open>
  \<open>merge_value\<close> is the branch for a key that is already in \<^verbatim>\<open>merged\<close> (lines 165-237);
  \<open>merge_dict\<close> is the inner loop over the items of one dictionary (lines 159-237). The two
  recursive calls of the source pass the two-element list \<^verbatim>\<open>[existing_props, value_props]\<close>:
  its first dictionary meets the empty accumulator, every one of its keys is new and is
  copied, so the accumulator is \<^verbatim>\<open>existing_props\<close> when the second one is merged
  (\<open>merge_dict_empty\<close> below).
\<close>

function merge_value :: "bool \<Rightarrow> pschema \<Rightarrow> pschema \<Rightarrow> pschema"
  and merge_dict :: "bool \<Rightarrow> props \<Rightarrow> props \<Rightarrow> props"
where
  "merge_value use_business_types existing v =
     (if p_type existing = TStr ''object'' \<and> p_type v = TStr ''object'' then
        set_properties
          (merge_dict use_business_types (get_props existing) (get_props v)) existing
      else if p_type existing = TStr ''array'' \<and> p_type v = TStr ''array'' then
        (let value_items = get_items v;
             existing_items = merge_item_type (get_items existing) value_items;
             existing_items' =
               (if p_type existing_items = TStr ''object''
                   \<and> p_type value_items = TStr ''object''
                then set_properties
                       (merge_dict use_business_types
                          (get_props existing_items) (get_props value_items))
                       existing_items
                else existing_items)
         in set_items existing_items' existing)
      else
        (let existing' = set_type (union_type (p_type existing) (p_type v)) existing
         in if use_business_types then merge_business_type existing' v else existing'))"
| "merge_dict use_business_types merged [] = merged"
| "merge_dict use_business_types merged ((k, v) # rest) =
     merge_dict use_business_types
       (case map_of merged k of
          None \<Rightarrow> merged @ [(k, v)]
        | Some existing \<Rightarrow> dict_set k (merge_value use_business_types existing v) merged)
       rest"
  by pat_completeness auto

termination
proof (relation "measure (\<lambda>x. case x of Inl (u, e, v) \<Rightarrow> size v
                                    | Inr (u, m, d) \<Rightarrow> size_list (size_prod (\<lambda>x. 0) size) d)",
       goal_cases)
  case 1
  show ?case by simp
next
  case (2 u e v)
  show ?case using size_get_props [of v] by simp
next
  case (3 u e v vi ei)
  show ?case using size_get_items_props [of v] 3 by simp
next
  case (4 u m k v rest e)
  show ?case by simp
next
  case (5 u m k v rest)
  show ?case by simp
qed

definition merge_properties :: "props list \<Rightarrow> bool \<Rightarrow> props" where
  "merge_properties properties_list use_business_types =
     (if properties_list = [] then []
      else foldl (merge_dict use_business_types) [] properties_list)"

text \<open>
  The equation of \<open>merge_value\<close> is unfolded on demand only. The next lemmas read one key
  of a merged dictionary, and show that merging a dictionary into the empty accumulator
  copies it.
\<close>

declare merge_value.simps [simp del]

lemma map_of_replace:
  "map_of (map (\<lambda>(k', v'). if k' = k then (k', x) else (k', v')) m) j
     = (if j = k then (if k \<in> fst ` set m then Some x else None) else map_of m j)"
  by (induction m) (auto split: if_splits)

lemma map_of_dict_set:
  "map_of (dict_set k x m) k' = (if k' = k then Some x else map_of m k')"
proof (cases "k \<in> fst ` set m")
  case True
  then show ?thesis by (simp add: dict_set_def map_of_replace)
next
  case False
  then have "map_of m k = None" by (simp add: map_of_eq_None_iff)
  with False show ?thesis by (auto simp: dict_set_def map_add_def split: option.splits)
qed

lemma map_of_merge_dict:
  "distinct (map fst d) \<Longrightarrow>
   map_of (merge_dict u m d) k =
     (case map_of d k of
        None \<Rightarrow> map_of m k
      | Some v \<Rightarrow> (case map_of m k of None \<Rightarrow> Some v | Some e \<Rightarrow> Some (merge_value u e v)))"
proof (induction d arbitrary: m)
  case Nil
  show ?case by simp
next
  case (Cons kv rest)
  obtain k' v' where kv: "kv = (k', v')" by (cases kv)
  define m' where "m' = (case map_of m k' of None \<Rightarrow> m @ [(k', v')]
             | Some existing \<Rightarrow> dict_set k' (merge_value u existing v') m)"
  have d: "distinct (map fst rest)" and nin: "k' \<notin> fst ` set rest"
    using Cons.prems kv by auto
  have m': "map_of m' j = (if j = k' then (case map_of m k' of None \<Rightarrow> Some v'
                              | Some e \<Rightarrow> Some (merge_value u e v')) else map_of m j)" for j
    unfolding m'_def by (auto simp: map_of_dict_set map_add_def split: option.splits)
  have rest_None: "k = k' \<Longrightarrow> map_of rest k = None"
    using nin by (simp add: map_of_eq_None_iff)
  have "map_of (merge_dict u m (kv # rest)) k = map_of (merge_dict u m' rest) k"
    by (simp add: kv m'_def)
  also have "\<dots> = (case map_of rest k of None \<Rightarrow> map_of m' k
      | Some v \<Rightarrow> (case map_of m' k of None \<Rightarrow> Some v | Some e \<Rightarrow> Some (merge_value u e v)))"
    by (rule Cons.IH [OF d])
  also have "\<dots> = (case map_of (kv # rest) k of
        None \<Rightarrow> map_of m k
      | Some v \<Rightarrow> (case map_of m k of None \<Rightarrow> Some v | Some e \<Rightarrow> Some (merge_value u e v)))"
  proof (cases "k = k'")
    case True
    then show ?thesis using rest_None by (simp add: kv m')
  next
    case False
    then show ?thesis by (simp add: kv m' split: option.splits)
  qed
  finally show ?case .
qed

lemma merge_dict_empty_gen:
  "distinct (map fst (m @ d)) \<Longrightarrow> merge_dict u m d = m @ d"
proof (induction d arbitrary: m)
  case Nil
  show ?case by simp
next
  case (Cons kv rest)
  obtain k v where kv: "kv = (k, v)" by (cases kv)
  have "map_of m k = None" using Cons.prems kv by (auto simp: map_of_eq_None_iff)
  moreover have "distinct (map fst ((m @ [(k, v)]) @ rest))" using Cons.prems kv by auto
  ultimately show ?case using Cons.IH [of "m @ [(k, v)]"] by (simp add: kv)
qed

lemma merge_dict_empty: "distinct (map fst d) \<Longrightarrow> merge_dict u [] d = d"
  using merge_dict_empty_gen [of "[]" d u] by simp

lemma merge_two:
  assumes "distinct (map fst A)" "distinct (map fst B)"
      and "map_of A k = Some e" "map_of B k = Some v"
  shows "map_of (merge_properties [A, B] ubt) k = Some (merge_value ubt e v)"
  using assms by (simp add: merge_properties_def merge_dict_empty map_of_merge_dict)

lemma p_type_set_business_type [simp]: "p_type (set_business_type b p) = p_type p"
  by (simp add: set_business_type_def)

lemma p_type_set_type [simp]: "p_type (set_type t p) = t"
  by (simp add: set_type_def)

lemma p_business_type_set_type [simp]: "p_business_type (set_type t p) = p_business_type p"
  by (simp add: set_type_def)

lemma p_business_type_set_business_type [simp]: "p_business_type (set_business_type b p) = b"
  by (simp add: set_business_type_def)

lemma p_type_merge_business_type [simp]: "p_type (merge_business_type e v) = p_type e"
  by (simp add: merge_business_type_def Let_def)

lemma merge_value_primitive:
  assumes "\<not> (p_type e = TStr ''object'' \<and> p_type v = TStr ''object'')"
      and "\<not> (p_type e = TStr ''array'' \<and> p_type v = TStr ''array'')"
  shows "p_type (merge_value ubt e v) = union_type (p_type e) (p_type v)"
    and "p_business_type (merge_value ubt e v) =
           (if ubt then p_business_type (merge_business_type e v) else p_business_type e)"
  using assms by (auto simp: merge_value.simps Let_def merge_business_type_def)

lemmas merge_eval = merge_properties_def merge_value.simps dict_set_def union_type_def
  merge_business_type_def merge_item_type_def set_type_def set_business_type_def
  set_properties_def set_items_def get_props_def get_items_def empty_dict_def Let_def


section \<open>Python strings\<close>

text \<open>
  A Python \<^verbatim>\<open>str\<close> is modelled by a \<open>string\<close> whose characters are the code points below 256.
  \<open>isspace\<close> is \<^verbatim>\<open>str.isspace\<close> on one such character, which is also what \<^verbatim>\<open>str.strip()\<close>
  removes and what \<^verbatim>\<open>\s\<close> matches in a pattern; \<^verbatim>\<open>\d\<close> matches the ten ASCII digits only,
  since no other decimal digit lies below 256.
\<close>

definition ws_chars :: "char list" where
  "ws_chars = [CHR 0x09, CHR 0x0A, CHR 0x0B, CHR 0x0C, CHR 0x0D,
               CHR 0x1C, CHR 0x1D, CHR 0x1E, CHR 0x1F, CHR 0x20, CHR 0x85, CHR 0xA0]"

definition digits :: "char list" where "digits = ''0123456789''"
definition lowers :: "char list" where "lowers = ''abcdefghijklmnopqrstuvwxyz''"
definition uppers :: "char list" where "uppers = ''ABCDEFGHIJKLMNOPQRSTUVWXYZ''"

definition isspace :: "char \<Rightarrow> bool" where
  "isspace c = (c \<in> set ws_chars)"

definition strip :: "string \<Rightarrow> string" where
  "strip s = rev (dropWhile isspace (rev (dropWhile isspace s)))"

definition lower_char :: "char \<Rightarrow> char" where
  "lower_char c =
     (let n = (of_char c :: nat)
      in if (65 \<le> n \<and> n \<le> 90) \<or> (192 \<le> n \<and> n \<le> 222 \<and> n \<noteq> 215)
         then char_of (n + 32) else c)"

definition lower :: "string \<Rightarrow> string" where
  "lower s = map lower_char s"

definition swapcase :: "char \<Rightarrow> char" where
  "swapcase c =
     (let n = (of_char c :: nat)
      in if 65 \<le> n \<and> n \<le> 90 then char_of (n + 32)
         else if 97 \<le> n \<and> n \<le> 122 then char_of (n - 32) else c)"

text \<open>\<^verbatim>\<open>s.split(sep)\<close> for a separator of one character, \<^verbatim>\<open>s.startswith(c)\<close>,
  \<^verbatim>\<open>s.endswith(c)\<close> and \<^verbatim>\<open>p in s\<close> for strings.\<close>

fun py_split :: "char \<Rightarrow> string \<Rightarrow> string list" where
  "py_split sep [] = [[]]"
| "py_split sep (c # cs) =
     (if c = sep then [] # py_split sep cs
      else (case py_split sep cs of [] \<Rightarrow> [[c]] | p # ps \<Rightarrow> (c # p) # ps))"

definition startswith :: "string \<Rightarrow> char \<Rightarrow> bool" where
  "startswith s c = (case s of [] \<Rightarrow> False | x # _ \<Rightarrow> x = c)"

definition endswith :: "string \<Rightarrow> char \<Rightarrow> bool" where
  "endswith s c = (s \<noteq> [] \<and> last s = c)"

fun has_infix :: "string \<Rightarrow> string \<Rightarrow> bool" where
  "has_infix p [] = (p = [])"
| "has_infix p (c # cs) = (take (length p) (c # cs) = p \<or> has_infix p cs)"

section \<open>Regular expressions\<close>

text \<open>
  The patterns of \<^verbatim>\<open>data_infer.py\<close> use character classes, sequence, alternation and bounded
  or unbounded repetition. \<open>Rep lo hi r\<close> is \<^verbatim>\<open>r{lo,hi}\<close>, with \<open>hi = None\<close> for no upper bound.

  \<open>bt r s\<close> lists the ways \<open>r\<close> matches a prefix of \<open>s\<close>, as pairs of the matched text and the
  rest, in the order in which Python's backtracking matcher tries them: the first alternative
  first, and as many repetitions as possible first. A repetition stops at an iteration that
  matches the empty string; no pattern of the source repeats a sub-pattern that can match
  the empty string. The recursion of \<open>bt_rep\<close> runs over the input itself, one character for each
  iteration at most.

  Every pattern of the source is written \<^verbatim>\<open>^...$\<close> and is applied with \<^verbatim>\<open>re.match\<close> to a
  string that does not end in a newline (it is stripped, or has its white space removed), so
  it matches when some way of matching consumes the whole string: \<open>re_match\<close>. Patterns
  compiled with \<^verbatim>\<open>re.IGNORECASE\<close> list both cases in their classes.
\<close>

datatype rx = Eps | Cls "char list" | NCls "char list" | Seq rx rx | Alt rx rx
  | Rep nat "nat option" rx

fun more :: "nat option \<Rightarrow> bool" where
  "more None = True"
| "more (Some n) = (0 < n)"

fun less_one :: "nat option \<Rightarrow> nat option" where
  "less_one None = None"
| "less_one (Some n) = Some (n - 1)"

fun bt_rep :: "(string \<Rightarrow> (string \<times> string) list) \<Rightarrow> nat \<Rightarrow> nat option \<Rightarrow> 'a list \<Rightarrow> string
    \<Rightarrow> (string \<times> string) list" where
  "bt_rep p lo hi [] s = (if lo = 0 then [([], s)] else [])"
| "bt_rep p lo hi (x # fuel) s =
     (if more hi
      then concat (map (\<lambda>(m1, r1). if m1 = [] then []
                          else map (\<lambda>(m2, r2). (m1 @ m2, r2))
                                   (bt_rep p (lo - 1) (less_one hi) fuel r1))
                       (p s))
      else [])
     @ (if lo = 0 then [([], s)] else [])"

fun bt :: "rx \<Rightarrow> string \<Rightarrow> (string \<times> string) list" where
  "bt Eps s = [([], s)]"
| "bt (Cls cs) s = (case s of [] \<Rightarrow> [] | c # t \<Rightarrow> if c \<in> set cs then [([c], t)] else [])"
| "bt (NCls cs) s = (case s of [] \<Rightarrow> [] | c # t \<Rightarrow> if c \<notin> set cs then [([c], t)] else [])"
| "bt (Seq a b) s =
     concat (map (\<lambda>(m1, r1). map (\<lambda>(m2, r2). (m1 @ m2, r2)) (bt b r1)) (bt a s))"
| "bt (Alt a b) s = bt a s @ bt b s"
| "bt (Rep lo hi r) s = bt_rep (\<lambda>t. bt r t) lo hi s s"

definition re_match :: "rx \<Rightarrow> string \<Rightarrow> bool" where
  "re_match r s = list_ex (\<lambda>(m, rest). rest = []) (bt r s)"

fun seqs :: "rx list \<Rightarrow> rx" where
  "seqs [] = Eps"
| "seqs [r] = r"
| "seqs (r # rs) = Seq r (seqs rs)"

fun alts :: "rx list \<Rightarrow> rx" where
  "alts [] = Cls []"
| "alts [r] = r"
| "alts (r # rs) = Alt r (alts rs)"

fun lits :: "string \<Rightarrow> rx" where
  "lits [] = Eps"
| "lits [c] = Cls [c]"
| "lits (c # cs) = Seq (Cls [c]) (lits cs)"

definition lit :: "char \<Rightarrow> rx" where "lit c = Cls [c]"
definition maybe :: "rx \<Rightarrow> rx" where "maybe r = Rep 0 (Some 1) r"
definition many :: "rx \<Rightarrow> rx" where "many r = Rep 0 None r"
definition many1 :: "rx \<Rightarrow> rx" where "many1 r = Rep 1 None r"
definition exactly :: "nat \<Rightarrow> rx \<Rightarrow> rx" where "exactly n r = Rep n (Some n) r"

definition digit :: rx where "digit = Cls digits"
definition hexdigit :: rx where "hexdigit = Cls ''0123456789abcdefABCDEF''"
definition space :: rx where "space = Cls ws_chars"
definition letter :: rx where "letter = Cls (uppers @ lowers)"

subsection \<open>The patterns of the classifier\<close>

text \<open>
  In source order (\<^verbatim>\<open>data_infer.py\<close>, lines 27-190). The currency class
  \<^verbatim>\<open>[\$...]\<close> keeps the dollar, pound (0xA3) and yen (0xA5) signs; the euro and rupee signs
  are code points above 255. \<open>coordinate_pattern\<close> is the pattern of line 83.
\<close>

definition uuid_pattern :: rx where
  "uuid_pattern = seqs [exactly 8 hexdigit, lit CHR ''-'', exactly 4 hexdigit, lit CHR ''-'',
     exactly 4 hexdigit, lit CHR ''-'', exactly 4 hexdigit, lit CHR ''-'', exactly 12 hexdigit]"

definition email_pattern :: rx where
  "email_pattern = seqs [many1 (Cls (lowers @ uppers @ digits @ ''._%+-'')), lit CHR ''@'',
     many1 (Cls (lowers @ uppers @ digits @ ''.-'')), lit CHR ''.'', Rep 2 None letter]"

definition url_pattern :: rx where
  "url_pattern = seqs [Cls ''hH'', Cls ''tT'', Cls ''tT'', Cls ''pP'', maybe (Cls ''sS''),
     lits ''://'', NCls (ws_chars @ ''/$.?#''), NCls [CHR 0x0A], many (NCls ws_chars)]"

definition ipv4_pattern :: rx where
  "ipv4_pattern =
     Seq (exactly 3 (Seq (Rep 1 (Some 3) digit) (lit CHR ''.''))) (Rep 1 (Some 3) digit)"

definition ipv6_pattern :: rx where
  "ipv6_pattern =
     Seq (exactly 7 (Seq (Rep 1 (Some 4) hexdigit) (lit CHR '':''))) (Rep 1 (Some 4) hexdigit)"

definition mac_pattern :: rx where
  "mac_pattern = Seq (exactly 5 (Seq (exactly 2 hexdigit) (Cls '':-''))) (exactly 2 hexdigit)"

definition cc_pattern :: rx where
  "cc_pattern = Rep 13 (Some 19) digit"

definition phone_patterns :: "rx list" where
  "phone_patterns =
     [Seq (maybe (lit CHR ''+'')) (Rep 10 None (Cls (digits @ ws_chars @ ''-()''))),
      seqs [exactly 3 digit, lit CHR ''-'', exactly 3 digit, lit CHR ''-'', exactly 4 digit],
      seqs [lit CHR ''('', exactly 3 digit, lit CHR '')'', maybe space, exactly 3 digit,
            lit CHR ''-'', exactly 4 digit],
      seqs [lit CHR ''+'', Rep 1 (Some 3) digit, maybe (Cls (ws_chars @ ''-'')),
            Rep 1 (Some 4) digit, maybe (Cls (ws_chars @ ''-'')),
            Rep 1 (Some 4) digit, maybe (Cls (ws_chars @ ''-'')), Rep 1 (Some 9) digit]]"

definition coordinate_pattern :: rx where
  "coordinate_pattern = seqs [maybe (lit CHR ''-''), many1 digit, maybe (lit CHR ''.''),
     many digit, lit CHR '','', many1 digit, maybe (lit CHR ''.''), many digit]"

definition currency_pattern :: rx where
  "currency_pattern = seqs [Cls [CHR ''$'', CHR 0xA3, CHR 0xA5], maybe space,
     many1 (Cls (digits @ '','')), maybe (lit CHR ''.''), many digit]"

definition postal_patterns :: "rx list" where
  "postal_patterns =
     [Seq (exactly 5 digit) (maybe (Seq (lit CHR ''-'') (exactly 4 digit))),
      seqs [letter, digit, letter, maybe space, digit, letter, digit],
      seqs [Rep 1 (Some 2) letter, Rep 1 (Some 2) digit, maybe space, digit, exactly 2 letter]]"

definition isbn_pattern :: rx where
  "isbn_pattern = Seq (maybe (Seq (lits ''ISBN'') (maybe (Cls ''- ''))))
                      (Alt (exactly 10 digit) (exactly 13 digit))"

definition base64_pattern :: rx where
  "base64_pattern = Seq (many1 (Cls (uppers @ lowers @ digits @ ''+/''))) (many (lit CHR ''=''))"

definition hex_color_pattern :: rx where
  "hex_color_pattern = Seq (maybe (lit CHR ''#'')) (exactly 6 hexdigit)"

section \<open>Numbers of the standard library\<close>

text \<open>
  \<^verbatim>\<open>int(s)\<close>, \<^verbatim>\<open>float(s)\<close> and \<^verbatim>\<open>Decimal(s)\<close> strip white space and then either return or raise
  \<^verbatim>\<open>ValueError\<close> (\<^verbatim>\<open>InvalidOperation\<close> for \<^verbatim>\<open>Decimal\<close>); \<open>None\<close> is the exception. The grammars
  are those of the language reference: digits may be grouped by single underscores,
  \<^verbatim>\<open>float\<close> also reads \<^verbatim>\<open>inf\<close>, \<^verbatim>\<open>infinity\<close> and \<^verbatim>\<open>nan\<close> in any case, and \<^verbatim>\<open>Decimal\<close> drops
  every underscore before it reads and also accepts \<^verbatim>\<open>NaN\<close> and \<^verbatim>\<open>sNaN\<close> with a payload of digits.

  \<^verbatim>\<open>int\<close> raises \<^verbatim>\<open>ValueError\<close> for a literal of more than \<open>max_str_digits\<close> digits, leading
  zeros counted: 4300, the default of \<^verbatim>\<open>sys.int_info.default_max_str_digits\<close> (CPython 3.11 and
  the security releases of 3.7 to 3.10 that have the limit).

  \<^verbatim>\<open>Decimal\<close> (the C implementation, on a 64-bit platform) converts exactly in the widest
  context, with precision \<open>MAX_PREC\<close> and exponents from \<open>MIN_EMIN\<close> to \<open>MAX_EMAX\<close>, and raises
  \<^verbatim>\<open>InvalidOperation\<close> when that rounds or clamps: when the coefficient without its leading
  zeros has more than \<open>MAX_PREC\<close> digits, when the exponent of the last digit is below
  \<open>MIN_ETINY\<close>, or when the exponent of the first digit is above \<open>MAX_EMAX\<close>
  (\<open>decimal_in_range\<close>).

  A float that is read is kept as the exact rational value of its literal (\<open>Finite\<close>) or as
  \<open>NonFinite\<close> for an infinity or a NaN; the code compares it only with the two bounds of the
  timestamp range (\<open>is_timestamp\<close> below).
\<close>

definition digitpart :: rx where
  "digitpart = Seq digit (many (Seq (maybe (lit CHR ''_'')) digit))"

definition int_syntax :: rx where
  "int_syntax = Seq (maybe (Cls ''+-'')) digitpart"

definition digit_val :: "char \<Rightarrow> int" where
  "digit_val c = of_char c - 48"

definition digits_val :: "string \<Rightarrow> int" where
  "digits_val s = foldl (\<lambda>n c. 10 * n + digit_val c) 0 (filter (\<lambda>c. c \<in> set digits) s)"

definition max_str_digits :: nat where
  "max_str_digits = 4300"

definition py_int :: "string \<Rightarrow> int option" where
  "py_int s0 =
     (let s = strip s0
      in if re_match int_syntax s \<and> length (filter (\<lambda>c. c \<in> set digits) s) \<le> max_str_digits
         then Some ((case s of c # _ \<Rightarrow> if c = CHR ''-'' then - 1 else 1 | [] \<Rightarrow> 1)
                    * digits_val s)
         else None)"

datatype pyfloat = Finite rat | NonFinite

definition exponent_syntax :: rx where
  "exponent_syntax = seqs [Cls ''eE'', maybe (Cls ''+-''), digitpart]"

definition float_number_syntax :: rx where
  "float_number_syntax =
     Seq (Alt (seqs [maybe digitpart, lit CHR ''.'', digitpart])
              (Seq digitpart (maybe (lit CHR ''.''))))
         (maybe exponent_syntax)"

definition float_special_syntax :: rx where
  "float_special_syntax =
     alts [seqs [Cls ''iI'', Cls ''nN'', Cls ''fF'', Cls ''iI'', Cls ''nN'', Cls ''iI'',
                 Cls ''tT'', Cls ''yY''],
           seqs [Cls ''iI'', Cls ''nN'', Cls ''fF''],
           seqs [Cls ''nN'', Cls ''aA'', Cls ''nN'']]"

definition pow10 :: "int \<Rightarrow> rat" where
  "pow10 k = (if 0 \<le> k then 10 ^ nat k else 1 / 10 ^ nat (- k))"

definition float_value :: "string \<Rightarrow> rat" where
  "float_value body =
     (let mant = takeWhile (\<lambda>c. c \<notin> set ''eE'') body;
          ex = drop 1 (dropWhile (\<lambda>c. c \<notin> set ''eE'') body);
          ip = takeWhile (\<lambda>c. c \<noteq> CHR ''.'') mant;
          fp = filter (\<lambda>c. c \<in> set digits) (dropWhile (\<lambda>c. c \<noteq> CHR ''.'') mant);
          e = (case ex of [] \<Rightarrow> 0
               | c # _ \<Rightarrow> (if c = CHR ''-'' then - 1 else 1) * digits_val ex)
      in of_int (digits_val (ip @ fp)) * pow10 (e - int (length fp)))"

definition py_float :: "string \<Rightarrow> pyfloat option" where
  "py_float s0 =
     (let s = strip s0;
          neg = (case s of c # _ \<Rightarrow> c = CHR ''-'' | [] \<Rightarrow> False);
          body = (case s of c # t \<Rightarrow> if c \<in> set ''+-'' then t else s | [] \<Rightarrow> s)
      in if re_match float_special_syntax body then Some NonFinite
         else if re_match float_number_syntax body
         then Some (Finite ((if neg then - 1 else 1) * float_value body))
         else None)"

definition decimal_number_syntax :: rx where
  "decimal_number_syntax =
     Seq (Alt (Seq (many1 digit) (maybe (Seq (lit CHR ''.'') (many digit))))
              (Seq (lit CHR ''.'') (many1 digit)))
         (maybe (seqs [Cls ''eE'', maybe (Cls ''+-''), many1 digit]))"

definition decimal_infinity_syntax :: rx where
  "decimal_infinity_syntax =
     seqs [Cls ''iI'', Cls ''nN'', Cls ''fF'',
           maybe (seqs [Cls ''iI'', Cls ''nN'', Cls ''iI'', Cls ''tT'', Cls ''yY''])]"

definition decimal_nan_syntax :: rx where
  "decimal_nan_syntax = seqs [maybe (Cls ''sS''), Cls ''nN'', Cls ''aA'', Cls ''nN'', many digit]"

definition MAX_PREC :: int where
  "MAX_PREC = 999999999999999999"

definition MAX_EMAX :: int where
  "MAX_EMAX = 999999999999999999"

definition MIN_EMIN :: int where
  "MIN_EMIN = - 999999999999999999"

definition MIN_ETINY :: int where
  "MIN_ETINY = MIN_EMIN - (MAX_PREC - 1)"

definition significant :: "string \<Rightarrow> int" where
  "significant ds = max 1 (int (length (dropWhile (\<lambda>c. c = CHR ''0'') ds)))"

definition decimal_in_range :: "string \<Rightarrow> bool" where
  "decimal_in_range body =
     (let mant = takeWhile (\<lambda>c. c \<notin> set ''eE'') body;
          ex = drop 1 (dropWhile (\<lambda>c. c \<notin> set ''eE'') body);
          ip = takeWhile (\<lambda>c. c \<noteq> CHR ''.'') mant;
          fp = drop 1 (dropWhile (\<lambda>c. c \<noteq> CHR ''.'') mant);
          e = (case ex of [] \<Rightarrow> 0
               | c # _ \<Rightarrow> (if c = CHR ''-'' then - 1 else 1) * digits_val ex);
          exp = e - int (length fp)
      in int (length fp) \<le> MAX_PREC
         \<and> significant (ip @ fp) \<le> MAX_PREC
         \<and> MIN_ETINY \<le> exp
         \<and> exp + significant (ip @ fp) - 1 \<le> MAX_EMAX)"

definition py_decimal_ok :: "string \<Rightarrow> bool" where
  "py_decimal_ok s0 =
     (let s = filter (\<lambda>c. c \<noteq> CHR ''_'') (strip s0);
          body = (case s of c # t \<Rightarrow> if c \<in> set ''+-'' then t else s | [] \<Rightarrow> s)
      in if re_match decimal_number_syntax body then decimal_in_range body
         else re_match decimal_infinity_syntax body
              \<or> (re_match decimal_nan_syntax body
                  \<and> significant (filter (\<lambda>c. c \<in> set digits) body) \<le> MAX_PREC))"

text \<open>
  Lines 135-141: \<^verbatim>\<open>timestamp = float(value)\<close> and \<^verbatim>\<open>0 <= timestamp <= 4102444800\<close>.
  \<^verbatim>\<open>float\<close> rounds the literal to the nearest double, ties to even. The doubles next to
  \<open>4102444800\<close> are \<open>2 ^ 21\<close>-ths apart and \<open>4102444800\<close> has an even significand, so a literal
  rounds to at most \<open>4102444800\<close> exactly when it is at most \<open>4102444800 + 1 / 2 ^ 22\<close>; the
  smallest positive double is \<open>1 / 2 ^ 1074\<close>, so a literal rounds to a double that is not below
  zero (negative zero included) exactly when it is at least \<open>- (1 / 2 ^ 1075)\<close>. Comparisons with
  NaN are false. \<^verbatim>\<open>datetime.fromtimestamp\<close> is taken to return on this range, as it does on a
  POSIX system.
\<close>

definition is_timestamp :: "string \<Rightarrow> bool" where
  "is_timestamp v =
     (case py_float v of
        Some (Finite x) \<Rightarrow> - (1 / 2 ^ 1075) \<le> x \<and> x \<le> 4102444800 + 1 / 2 ^ 22
      | _ \<Rightarrow> False)"

section \<open>\<^verbatim>\<open>datetime.strptime\<close>\<close>

text \<open>
  \<^verbatim>\<open>strptime\<close> (CPython 3.7 and later) turns the format into a regular expression, one group
  for each directive, compiled with \<^verbatim>\<open>re.IGNORECASE\<close>; a run of white space in the format
  becomes \<^verbatim>\<open>\s+\<close>. It takes the first match the backtracking matcher finds, raises
  \<^verbatim>\<open>ValueError\<close> when there is none or when the match leaves input unread, and then builds
  the date, which raises \<^verbatim>\<open>ValueError\<close> for year 0, for a day the month does not have, for
  second 60 or 61 and for a UTC offset of 24 hours or more, or with colons in one place only.
  \<open>strptime_ok\<close> is whether the call returns.
\<close>

datatype fitem = FLit char | FSpace | FDir char

fun parse_format :: "bool \<Rightarrow> string \<Rightarrow> fitem list" where
  "parse_format in_space [] = []"
| "parse_format in_space (c # cs) =
     (if c = CHR ''%'' then
        (case cs of [] \<Rightarrow> [] | d # rest \<Rightarrow> FDir d # parse_format False rest)
      else if isspace c then
        (if in_space then parse_format True cs else FSpace # parse_format True cs)
      else FLit c # parse_format False cs)"

definition directive :: "char \<Rightarrow> rx option" where
  "directive d =
     (if d = CHR ''d'' then
        Some (alts [Seq (lit CHR ''3'') (Cls ''01''), Seq (Cls ''12'') digit,
                    Seq (lit CHR ''0'') (Cls ''123456789''), Cls ''123456789'',
                    Seq (lit CHR '' '') (Cls ''123456789'')])
      else if d = CHR ''f'' then Some (Rep 1 (Some 6) digit)
      else if d = CHR ''H'' then
        Some (alts [Seq (lit CHR ''2'') (Cls ''0123''), Seq (Cls ''01'') digit, digit])
      else if d = CHR ''m'' then
        Some (alts [Seq (lit CHR ''1'') (Cls ''012''), Seq (lit CHR ''0'') (Cls ''123456789''),
                    Cls ''123456789''])
      else if d = CHR ''M'' then Some (alts [Seq (Cls ''012345'') digit, digit])
      else if d = CHR ''S'' then
        Some (alts [Seq (lit CHR ''6'') (Cls ''01''), Seq (Cls ''012345'') digit, digit])
      else if d = CHR ''Y'' then Some (exactly 4 digit)
      else if d = CHR ''z'' then
        Some (Alt (seqs [Cls ''+-'', digit, digit, maybe (lit CHR '':''), Cls ''012345'', digit,
                         maybe (seqs [maybe (lit CHR '':''), Cls ''012345'', digit,
                                      maybe (Seq (lit CHR ''.'') (Rep 1 (Some 6) digit))])])
                  (lit CHR ''Z''))
      else None)"

fun item_rx :: "fitem \<Rightarrow> rx option" where
  "item_rx (FLit c) = Some (Cls [c, swapcase c])"
| "item_rx FSpace = Some (many1 space)"
| "item_rx (FDir d) = directive d"

fun item_key :: "fitem \<Rightarrow> char" where
  "item_key (FDir d) = d"
| "item_key _ = CHR ''%''"

text \<open>\<open>found\<close>: the matches of the whole format, each with the text of every group.\<close>

fun found :: "(fitem \<times> rx) list \<Rightarrow> string \<Rightarrow> ((char \<times> string) list \<times> string) list" where
  "found [] s = [([], s)]"
| "found ((it, r) # its) s =
     concat (map (\<lambda>(m, rest). map (\<lambda>(caps, rest'). ((item_key it, m) # caps, rest'))
                                   (found its rest))
                 (bt r s))"

definition is_leap :: "int \<Rightarrow> bool" where
  "is_leap y = (y mod 4 = 0 \<and> (y mod 100 \<noteq> 0 \<or> y mod 400 = 0))"

definition days_in_month :: "int \<Rightarrow> int \<Rightarrow> int" where
  "days_in_month y m =
     (if m = 2 then (if is_leap y then 29 else 28)
      else if m \<in> set [4, 6, 9, 11] then 30 else 31)"

definition z_ok :: "string \<Rightarrow> bool" where
  "z_ok z0 =
     (if z0 = ''Z'' then True
      else
        (let colon1 = (take 1 (drop 3 z0) = '':'');
             z1 = (if colon1 then take 3 z0 @ drop 4 z0 else z0);
             inconsistent = (colon1 \<and> 5 < length z1 \<and> take 1 (drop 5 z1) \<noteq> '':'');
             z = (if colon1 \<and> 5 < length z1 then take 5 z1 @ drop 6 z1 else z1);
             hours = py_int (take 2 (drop 1 z));
             minutes = py_int (take 2 (drop 3 z));
             seconds = (if take 2 (drop 5 z) = [] then Some 0 else py_int (take 2 (drop 5 z)))
         in \<not> inconsistent \<and> minutes \<noteq> None \<and> seconds \<noteq> None
            \<and> (case hours of None \<Rightarrow> False | Some h \<Rightarrow> h < 24)))"

definition field :: "(char \<times> string) list \<Rightarrow> char \<Rightarrow> int \<Rightarrow> int" where
  "field caps k dflt = (case map_of caps k of None \<Rightarrow> dflt | Some t \<Rightarrow> digits_val t)"

definition fields_ok :: "(char \<times> string) list \<Rightarrow> bool" where
  "fields_ok caps =
     (let month = field caps CHR ''m'' 1;
          day = field caps CHR ''d'' 1;
          year = (case map_of caps CHR ''Y'' of
                    None \<Rightarrow> (if month = 2 \<and> day = 29 then 1904 else 1900)
                  | Some t \<Rightarrow> digits_val t);
          hour = field caps CHR ''H'' 0;
          minute = field caps CHR ''M'' 0;
          second = field caps CHR ''S'' 0
      in 1 \<le> year \<and> year \<le> 9999 \<and> 1 \<le> month \<and> month \<le> 12
         \<and> 1 \<le> day \<and> day \<le> days_in_month year month
         \<and> hour \<le> 23 \<and> minute \<le> 59 \<and> second \<le> 59
         \<and> (case map_of caps CHR ''z'' of None \<Rightarrow> True | Some z \<Rightarrow> z_ok z))"

definition strptime_ok :: "string \<Rightarrow> string \<Rightarrow> bool" where
  "strptime_ok data_string format =
     (let items = parse_format False format
      in if list_ex (\<lambda>it. item_rx it = None) items then False
         else (case found (map (\<lambda>it. (it, the (item_rx it))) items) data_string of
                 [] \<Rightarrow> False
               | (caps, rest) # _ \<Rightarrow> rest = [] \<and> fields_ok caps))"

definition date_time_formats :: "string list" where
  "date_time_formats =
     [''%Y-%m-%d'', ''%Y-%m-%d %H:%M:%S'', ''%Y-%m-%dT%H:%M:%S'', ''%Y-%m-%dT%H:%M:%S.%f'',
      ''%Y-%m-%dT%H:%M:%S%z'', ''%Y-%m-%dT%H:%M:%S.%f%z'', ''%m/%d/%Y'', ''%m-%d-%Y'',
      ''%m/%d/%Y %H:%M:%S'', ''%d/%m/%Y'', ''%d-%m-%Y'', ''%d/%m/%Y %H:%M:%S'', ''%Y/%m/%d'',
      ''%d.%m.%Y'', ''%Y.%m.%d'', ''%H:%M:%S'', ''%H:%M'']"

section \<open>The value classifier\<close>

text \<open>
  \<^verbatim>\<open>infer_types\<close> (\<^verbatim>\<open>data_infer.py\<close>, lines 7-195) returns the pair of a business type
  (\<open>None\<close> for Python's \<^verbatim>\<open>None\<close>) and a data type. Each \<^verbatim>\<open>try\<close> block of the source catches the
  exception of the library call inside it, which the model reads as the call giving \<open>None\<close> or
  \<open>False\<close>. The one call that can raise outside a \<^verbatim>\<open>try\<close> block is \<^verbatim>\<open>int(p)\<close> at line 45, inside
  \<^verbatim>\<open>all(...)\<close>, which stops at the first octet out of range: \<open>all_octets\<close> keeps that exception
  as a result.

  \<^verbatim>\<open>json.loads\<close> is not modelled: \<open>json_loads\<close> is a parameter that gives, for a string, what
  the call does: it returns, or it raises. \<^verbatim>\<open>JSONDecodeError\<close> is a subclass of \<^verbatim>\<open>ValueError\<close>
  and \<open>ValueError\<close> stands for both. On brackets nested more deeply than the interpreter's
  recursion limit allows (a thousand by default) the call raises \<^verbatim>\<open>RecursionError\<close>, which the
  handler of line 79 does not catch.

  The cascade is cut into five parts in source order: \<open>infer_types\<close> (lines 16-46),
  \<open>infer_identifier\<close> (lines 48-71), \<open>infer_structured\<close> (lines 73-80), \<open>infer_collection\<close>
  (lines 82-100), \<open>infer_date\<close> (lines 102-132), \<open>infer_number\<close> (lines 134-168) and \<open>infer_text\<close>
  (lines 170-195).
\<close>

datatype py_error = ValueError | IndexError | FileNotFoundError | RecursionError | ImportError

datatype outcome = Returns | Raises py_error

type_synonym classified = "string option \<times> string"

fun all_octets :: "string list \<Rightarrow> py_error + bool" where
  "all_octets [] = Inr True"
| "all_octets (p # ps) =
     (case py_int p of
        None \<Rightarrow> Inl ValueError
      | Some n \<Rightarrow> if 0 \<le> n \<and> n \<le> 255 then all_octets ps else Inr False)"

definition infer_text :: "string \<Rightarrow> classified" where
  "infer_text v =
     (if list_ex (\<lambda>p. re_match p v) postal_patterns then (Some ''postal_code'', ''string'')
      else if re_match isbn_pattern v then (Some ''isbn'', ''string'')
      else if length v mod 4 = 0 \<and> re_match base64_pattern v \<and> 20 < length v
        then (Some ''base64'', ''string'')
      else if re_match hex_color_pattern v then (Some ''hex_color'', ''string'')
      else (None, ''string''))"

definition infer_number :: "string \<Rightarrow> classified" where
  "infer_number v =
     (if is_timestamp v then (Some ''timestamp'', ''number'')
      else if py_int v \<noteq> None then (None, ''integer'')
      else if py_float v \<noteq> None then
        (if CHR ''e'' \<in> set (lower v) then (None, ''number'')
         else if CHR ''.'' \<in> set v then (None, ''float'')
         else (None, ''number''))
      else if py_decimal_ok v then (None, ''decimal'')
      else infer_text v)"

definition infer_date :: "string \<Rightarrow> classified" where
  "infer_date v =
     (case find (\<lambda>fmt. strptime_ok v fmt) date_time_formats of
        Some fmt \<Rightarrow>
          (if CHR ''T'' \<in> set fmt \<or> CHR '' '' \<in> set fmt \<or> has_infix ''%H'' fmt
           then (Some ''datetime'', ''datetime'') else (Some ''date'', ''date''))
      | None \<Rightarrow> infer_number v)"

definition infer_collection :: "string \<Rightarrow> classified" where
  "infer_collection v =
     (if CHR '','' \<in> set v \<and> \<not> re_match coordinate_pattern v
         \<and> 1 < length (map strip (py_split CHR '','' v))
        then (Some ''array'', ''string'')
      else if endswith v CHR ''%'' \<and> py_float (strip (butlast v)) \<noteq> None
        then (Some ''percentage'', ''number'')
      else if re_match currency_pattern v then (Some ''currency'', ''string'')
      else infer_date v)"

definition infer_structured :: "(string \<Rightarrow> outcome) \<Rightarrow> string \<Rightarrow> py_error + classified" where
  "infer_structured json_loads v =
     (if (startswith v CHR ''{'' \<and> endswith v CHR ''}'')
         \<or> (startswith v CHR ''['' \<and> endswith v CHR '']'')
      then (case json_loads v of
              Returns \<Rightarrow> Inr (Some ''json'', ''string'')
            | Raises e \<Rightarrow> if e = ValueError then Inr (infer_collection v) else Inl e)
      else Inr (infer_collection v))"

definition infer_identifier :: "(string \<Rightarrow> outcome) \<Rightarrow> string \<Rightarrow> py_error + classified" where
  "infer_identifier json_loads v =
     (if re_match ipv6_pattern v then Inr (Some ''ipv6_address'', ''string'')
      else if re_match mac_pattern v then Inr (Some ''mac_address'', ''string'')
      else if re_match cc_pattern (filter (\<lambda>c. \<not> (isspace c \<or> c = CHR ''-'')) v)
        then Inr (Some ''credit_card'', ''string'')
      else if list_ex (\<lambda>p. re_match p v) phone_patterns
        then Inr (Some ''phone_number'', ''string'')
      else infer_structured json_loads v)"

definition boolean_literals :: "string list" where
  "boolean_literals = [''true'', ''false'', ''1'', ''0'', ''yes'', ''no'', ''y'', ''n'', ''t'', ''f'']"

definition infer_types :: "(string \<Rightarrow> outcome) \<Rightarrow> string \<Rightarrow> py_error + classified" where
  "infer_types json_loads value0 =
     (if value0 = [] \<or> strip value0 = [] then Inr (None, ''null'')
      else
        (let v = strip value0
         in if lower v \<in> set boolean_literals then Inr (None, ''boolean'')
            else if re_match uuid_pattern v then Inr (Some ''uuid'', ''string'')
            else if re_match email_pattern v then Inr (Some ''email'', ''string'')
            else if re_match url_pattern v then Inr (Some ''url'', ''string'')
            else if re_match ipv4_pattern v then
              (case all_octets (py_split CHR ''.'' v) of
                 Inl e \<Rightarrow> Inl e
               | Inr True \<Rightarrow> Inr (Some ''ip_address'', ''string'')
               | Inr False \<Rightarrow> infer_identifier json_loads v)
            else infer_identifier json_loads v))"

text \<open>The definitions a concrete classification unfolds.\<close>

lemmas rx_defs = re_match_def uuid_pattern_def email_pattern_def url_pattern_def ipv4_pattern_def
  ipv6_pattern_def mac_pattern_def cc_pattern_def phone_patterns_def coordinate_pattern_def
  currency_pattern_def postal_patterns_def isbn_pattern_def base64_pattern_def
  hex_color_pattern_def digitpart_def int_syntax_def exponent_syntax_def float_number_syntax_def
  float_special_syntax_def decimal_number_syntax_def decimal_infinity_syntax_def
  decimal_nan_syntax_def lit_def maybe_def many_def many1_def exactly_def
  digit_def hexdigit_def space_def letter_def ws_chars_def digits_def lowers_def uppers_def

lemmas py_defs = isspace_def strip_def lower_def lower_char_def startswith_def endswith_def
  digit_val_def digits_val_def py_int_def pow10_def float_value_def py_float_def
  py_decimal_ok_def is_timestamp_def max_str_digits_def MAX_PREC_def MAX_EMAX_def MIN_EMIN_def
  MIN_ETINY_def significant_def decimal_in_range_def

lemmas strptime_defs = swapcase_def directive_def is_leap_def days_in_month_def z_ok_def
  field_def fields_ok_def strptime_ok_def date_time_formats_def

lemmas infer_defs = infer_text_def infer_number_def infer_date_def infer_collection_def
  infer_structured_def
  infer_identifier_def infer_types_def boolean_literals_def

text \<open>Stripping a stripped string changes nothing.\<close>

lemma dropWhile_rev_dropWhile:
  "dropWhile P (rev (dropWhile P (rev (dropWhile P s)))) = rev (dropWhile P (rev (dropWhile P s)))"
proof (cases "rev (dropWhile P (rev (dropWhile P s))) = []")
  case True
  then show ?thesis by (simp only: dropWhile.simps)
next
  case False
  define u where "u = dropWhile P s"
  define r where "r = rev (dropWhile P (rev u))"
  have rne: "r \<noteq> []" using False by (simp add: r_def u_def)
  then have une: "u \<noteq> []" by (auto simp: r_def)
  have "\<exists>t. u = r @ t"
  proof -
    have "rev u = takeWhile P (rev u) @ dropWhile P (rev u)" by simp
    then have "u = rev (dropWhile P (rev u)) @ rev (takeWhile P (rev u))"
      by (metis rev_append rev_rev_ident)
    then show ?thesis by (auto simp: r_def)
  qed
  then obtain t where t: "u = r @ t" ..
  have "hd r = hd u" using t rne by simp
  moreover have "\<not> P (hd u)" using une unfolding u_def by (simp add: hd_dropWhile)
  ultimately have "\<not> P (hd r)" by simp
  then have "dropWhile P r = r" using rne by (cases r) auto
  then show ?thesis by (simp add: r_def u_def)
qed

lemma strip_strip: "strip (strip s) = strip s"
proof -
  let ?r = "rev (dropWhile isspace (rev (dropWhile isspace s)))"
  have a: "dropWhile isspace ?r = ?r" by (rule dropWhile_rev_dropWhile)
  have "strip (strip s) = rev (dropWhile isspace (rev (dropWhile isspace ?r)))"
    by (simp add: strip_def)
  also have "\<dots> = rev (dropWhile isspace (rev ?r))" by (simp only: a)
  also have "\<dots> = rev (dropWhile isspace (dropWhile isspace (rev (dropWhile isspace s))))"
    by simp
  also have "\<dots> = ?r" by (simp add: dropWhile_idem)
  finally show ?thesis by (simp add: strip_def)
qed

section \<open>The matcher decides the language of a pattern\<close>

text \<open>
  \<open>lang r\<close> is the set of strings the pattern \<open>r\<close> denotes, with the iterations of a
  repetition taken non-empty. \<open>re_match_iff\<close> shows that \<open>re_match\<close> decides membership. It is
  used to show that \<^verbatim>\<open>int(p)\<close> at line 45 of \<^verbatim>\<open>data_infer.py\<close> never raises: a string that
  matches \<open>ipv4_pattern\<close> splits at its dots into four texts of one to three digits.
\<close>

fun at_most :: "nat option \<Rightarrow> nat \<Rightarrow> bool" where
  "at_most None n = True"
| "at_most (Some h) n = (n \<le> h)"

fun lang :: "rx \<Rightarrow> string set" where
  "lang Eps = {[]}"
| "lang (Cls cs) = {[c] | c. c \<in> set cs}"
| "lang (NCls cs) = {[c] | c. c \<notin> set cs}"
| "lang (Seq a b) = {x @ y | x y. x \<in> lang a \<and> y \<in> lang b}"
| "lang (Alt a b) = lang a \<union> lang b"
| "lang (Rep lo hi r) =
     {concat ws | ws. lo \<le> length ws \<and> at_most hi (length ws)
                      \<and> (\<forall>w \<in> set ws. w \<in> lang r \<and> w \<noteq> [])}"

lemma bt_rep_sound:
  assumes p: "\<And>t m r. (m, r) \<in> set (p t) \<Longrightarrow> t = m @ r \<and> m \<in> L"
  shows "(m, rest) \<in> set (bt_rep p lo hi fuel s) \<Longrightarrow>
         s = m @ rest \<and> (\<exists>ws. m = concat ws \<and> lo \<le> length ws \<and> at_most hi (length ws)
                               \<and> (\<forall>w \<in> set ws. w \<in> L \<and> w \<noteq> []))"
proof (induction fuel arbitrary: lo hi s m)
  case Nil
  then have "lo = 0" "m = []" "rest = s" by (auto split: if_splits)
  then show ?case by (cases hi) (auto intro: exI [of _ "[]"])
next
  case (Cons x fuel)
  from Cons.prems consider
      (stop) "lo = 0" "m = []" "rest = s"
    | (iter) m1 r1 m2 where "more hi" "(m1, r1) \<in> set (p s)" "m1 \<noteq> []"
        "(m2, rest) \<in> set (bt_rep p (lo - 1) (less_one hi) fuel r1)" "m = m1 @ m2"
    by (auto split: if_splits)
  then show ?case
  proof cases
    case stop
    then show ?thesis by (cases hi) (auto intro: exI [of _ "[]"])
  next
    case iter
    from p [OF iter(2)] have s: "s = m1 @ r1" and m1: "m1 \<in> L" by auto
    from Cons.IH [OF iter(4)] obtain ws where
      r1: "r1 = m2 @ rest" and ws: "m2 = concat ws" "lo - 1 \<le> length ws"
        "at_most (less_one hi) (length ws)" "\<forall>w \<in> set ws. w \<in> L \<and> w \<noteq> []"
      by auto
    have "at_most hi (length (m1 # ws))"
      using ws(3) iter(1) by (cases hi) auto
    moreover have "lo \<le> length (m1 # ws)" using ws(2) by simp
    moreover have "\<forall>w \<in> set (m1 # ws). w \<in> L \<and> w \<noteq> []" using ws(4) m1 iter(3) by simp
    moreover have "m = concat (m1 # ws)" using iter(5) ws(1) by simp
    ultimately have "\<exists>ws'. m = concat ws' \<and> lo \<le> length ws' \<and> at_most hi (length ws')
                               \<and> (\<forall>w \<in> set ws'. w \<in> L \<and> w \<noteq> [])"
      by blast
    then show ?thesis using s r1 iter(5) by simp
  qed
qed

lemma bt_sound: "(m, rest) \<in> set (bt r s) \<Longrightarrow> s = m @ rest \<and> m \<in> lang r"
proof (induction r arbitrary: s m rest)
  case Eps
  then show ?case by simp
next
  case (Cls cs)
  then show ?case by (cases s) (auto split: if_splits)
next
  case (NCls cs)
  then show ?case by (cases s) (auto split: if_splits)
next
  case (Seq a b)
  from Seq.prems obtain m1 r1 m2 where
    a: "(m1, r1) \<in> set (bt a s)" and b: "(m2, rest) \<in> set (bt b r1)" and m: "m = m1 @ m2"
    by auto
  from Seq.IH(1) [OF a] Seq.IH(2) [OF b] m show ?case by auto
next
  case (Alt a b)
  then show ?case by auto
next
  case (Rep lo hi r)
  have "(m, rest) \<in> set (bt_rep (\<lambda>t. bt r t) lo hi s s)" using Rep.prems by simp
  from bt_rep_sound [of "\<lambda>t. bt r t" "lang r", OF _ this] Rep.IH
  show ?case by auto
qed

lemma length_concat_nonempty:
  "\<forall>w \<in> set ws. w \<noteq> [] \<Longrightarrow> length ws \<le> length (concat ws)"
proof (induction ws)
  case Nil
  show ?case by simp
next
  case (Cons w ws)
  then have "w \<noteq> []" and "length ws \<le> length (concat ws)" by auto
  then show ?case by (cases w) auto
qed

lemma bt_rep_complete:
  assumes p: "\<And>w rest. w \<in> L \<Longrightarrow> (w, rest) \<in> set (p (w @ rest))"
  shows "\<lbrakk>\<forall>w \<in> set ws. w \<in> L \<and> w \<noteq> []; lo \<le> length ws; at_most hi (length ws);
          length ws \<le> length fuel\<rbrakk>
         \<Longrightarrow> (concat ws, rest) \<in> set (bt_rep p lo hi fuel (concat ws @ rest))"
proof (induction ws arbitrary: lo hi fuel)
  case Nil
  then show ?case by (cases fuel) auto
next
  case (Cons w ws)
  from Cons.prems(4) obtain x f where fuel: "fuel = x # f" and f: "length ws \<le> length f"
    by (cases fuel) auto
  have more: "more hi" using Cons.prems(3) by (cases hi) auto
  have w: "w \<in> L" "w \<noteq> []" using Cons.prems(1) by auto
  have "at_most (less_one hi) (length ws)" using Cons.prems(3) by (cases hi) auto
  moreover have "lo - 1 \<le> length ws" using Cons.prems(2) by simp
  ultimately have rec: "(concat ws, rest) \<in> set (bt_rep p (lo - 1) (less_one hi) f (concat ws @ rest))"
    using Cons.IH [of "lo - 1" "less_one hi" f] Cons.prems(1) f by simp
  have first: "(w, concat ws @ rest) \<in> set (p (w @ concat ws @ rest))" by (rule p [OF w(1)])
  show ?case
    using more w(2) rec first by (simp add: fuel) force
qed

lemma bt_complete: "m \<in> lang r \<Longrightarrow> (m, rest) \<in> set (bt r (m @ rest))"
proof (induction r arbitrary: m rest)
  case Eps
  then show ?case by simp
next
  case (Cls cs)
  then show ?case by auto
next
  case (NCls cs)
  then show ?case by auto
next
  case (Seq a b)
  from Seq.prems obtain x y where m: "m = x @ y" and x: "x \<in> lang a" and y: "y \<in> lang b"
    by auto
  have "(x, y @ rest) \<in> set (bt a (x @ y @ rest))" by (rule Seq.IH(1) [OF x])
  moreover have "(y, rest) \<in> set (bt b (y @ rest))" by (rule Seq.IH(2) [OF y])
  ultimately show ?case by (simp add: m) force
next
  case (Alt a b)
  then show ?case by auto
next
  case (Rep lo hi r)
  from Rep.prems obtain ws where m: "m = concat ws" and lo: "lo \<le> length ws"
    and hi: "at_most hi (length ws)" and ws: "\<forall>w \<in> set ws. w \<in> lang r \<and> w \<noteq> []"
    by auto
  have "length ws \<le> length (concat ws @ rest)"
    using length_concat_nonempty [of ws] ws by simp
  from bt_rep_complete [of "lang r" "\<lambda>t. bt r t" ws lo hi "concat ws @ rest" rest, OF Rep.IH ws lo hi this]
  show ?case by (simp add: m)
qed

lemma re_match_iff: "re_match r s \<longleftrightarrow> s \<in> lang r"
proof
  assume "re_match r s"
  then obtain m where "(m, []) \<in> set (bt r s)" by (auto simp: re_match_def list_ex_iff)
  from bt_sound [OF this] show "s \<in> lang r" by simp
next
  assume "s \<in> lang r"
  from bt_complete [OF this, of "[]"] show "re_match r s"
    by (auto simp: re_match_def list_ex_iff)
qed


lemma py_split_no_sep: "sep \<notin> set y \<Longrightarrow> py_split sep y = [y]"
  by (induction y) auto

lemma py_split_append:
  "sep \<notin> set d \<Longrightarrow> py_split sep (d @ sep # rest) = d # py_split sep rest"
  by (induction d) auto

lemma py_split_groups:
  assumes "\<forall>w \<in> set ws. \<exists>d. w = d @ [sep] \<and> sep \<notin> set d \<and> Q d"
      and "sep \<notin> set y" and "Q y"
  shows "\<forall>p \<in> set (py_split sep (concat ws @ y)). Q p"
  using assms(1)
proof (induction ws)
  case Nil
  show ?case using assms(2,3) by (simp add: py_split_no_sep)
next
  case (Cons w ws)
  then obtain d where d: "w = d @ [sep]" "sep \<notin> set d" "Q d" by auto
  have "py_split sep (concat (w # ws) @ y) = d # py_split sep (concat ws @ y)"
    using d(2) by (simp add: d(1) py_split_append)
  then show ?case using d(3) Cons by simp
qed

lemma dropWhile_none: "\<forall>c \<in> set xs. \<not> P c \<Longrightarrow> dropWhile P xs = xs"
  by (cases xs) auto

lemma strip_no_space: "\<forall>c \<in> set d. \<not> isspace c \<Longrightarrow> strip d = d"
proof -
  assume a: "\<forall>c \<in> set d. \<not> isspace c"
  have 1: "dropWhile isspace d = d" using a by (rule dropWhile_none)
  have "\<forall>c \<in> set (rev d). \<not> isspace c" using a by simp
  then have 2: "dropWhile isspace (rev d) = rev d" by (rule dropWhile_none)
  show ?thesis by (simp add: strip_def 1 2)
qed

definition digit_text :: "string \<Rightarrow> bool" where
  "digit_text d = (d \<noteq> [] \<and> set d \<subseteq> set digits \<and> length d \<le> 3)"

lemma digit_not_space: "c \<in> set digits \<Longrightarrow> \<not> isspace c"
  by (auto simp: digits_def isspace_def ws_chars_def)

lemma digit_text_int_syntax: "digit_text d \<Longrightarrow> d \<in> lang int_syntax"
proof -
  assume "digit_text d"
  then obtain c cs where d: "d = c # cs" and c: "c \<in> set digits" and cs: "set cs \<subseteq> set digits"
    by (cases d) (auto simp: digit_text_def)
  let ?X = "Seq (maybe (lit CHR ''_'')) digit"
  have e: "[] \<in> lang (maybe r)" for r
    by (auto simp: maybe_def intro: exI [of _ "[]"])
  have one: "[x] \<in> lang ?X" if "x \<in> set digits" for x
  proof -
    have "[] \<in> lang (maybe (lit CHR ''_''))" by (rule e)
    moreover have "[x] \<in> lang digit" using that by (simp add: digit_def)
    ultimately have "[] @ [x] \<in> lang ?X" unfolding lang.simps by blast
    then show ?thesis by simp
  qed
  have "\<forall>w \<in> set (map (\<lambda>x. [x]) cs). w \<in> lang ?X \<and> w \<noteq> []"
    using one cs by auto
  then have "concat (map (\<lambda>x. [x]) cs) \<in> lang (many ?X)"
    unfolding many_def lang.simps(6) by (intro CollectI exI [of _ "map (\<lambda>x. [x]) cs"]) simp
  moreover have "concat (map (\<lambda>x. [x]) cs) = cs" by (induction cs) auto
  ultimately have "cs \<in> lang (many ?X)" by simp
  moreover have "[c] \<in> lang digit" using c by (simp add: digit_def)
  ultimately have "[c] @ cs \<in> lang digitpart" unfolding digitpart_def lang.simps by blast
  moreover have "[] \<in> lang (maybe (Cls ''+-''))" by (rule e)
  ultimately have "[] @ ([c] @ cs) \<in> lang int_syntax" unfolding int_syntax_def lang.simps by blast
  then show ?thesis by (simp add: d)
qed

lemma py_int_digit_text: "digit_text d \<Longrightarrow> py_int d \<noteq> None"
proof -
  assume d: "digit_text d"
  then have "strip d = d" by (intro strip_no_space) (auto simp: digit_text_def dest: digit_not_space)
  moreover have "re_match int_syntax d" using digit_text_int_syntax [OF d] by (simp add: re_match_iff)
  moreover have "length (filter (\<lambda>c. c \<in> set digits) d) \<le> max_str_digits"
  proof -
    have "length (filter (\<lambda>c. c \<in> set digits) d) \<le> length d" by (rule length_filter_le)
    also have "\<dots> \<le> 3" using d by (simp add: digit_text_def)
    finally show ?thesis by (simp add: max_str_digits_def)
  qed
  ultimately show ?thesis by (simp add: py_int_def)
qed

lemma all_octets_returns: "\<forall>p \<in> set ps. py_int p \<noteq> None \<Longrightarrow> \<exists>b. all_octets ps = Inr b"
  by (induction ps) auto

lemma octet_digit_text: "d \<in> lang (Rep 1 (Some 3) digit) \<Longrightarrow> digit_text d"
proof -
  assume "d \<in> lang (Rep 1 (Some 3) digit)"
  then obtain ws where d: "d = concat ws" and n: "1 \<le> length ws" and m: "length ws \<le> 3"
    and ws: "\<forall>w \<in> set ws. w \<in> lang digit \<and> w \<noteq> []" by auto
  have "set (concat ws) \<subseteq> set digits" using ws by (auto simp: digit_def)
  moreover have "concat ws \<noteq> []" using n ws by (cases ws) auto
  moreover have "length (concat ws) = length ws"
    using ws by (induction ws) (auto simp: digit_def)
  ultimately show ?thesis using m by (simp add: digit_text_def d)
qed

lemma dot_not_digit: "CHR ''.'' \<notin> set digits"
  by (simp add: digits_def)

lemma lang_Seq_iff: "s \<in> lang (Seq a b) \<longleftrightarrow> (\<exists>x y. s = x @ y \<and> x \<in> lang a \<and> y \<in> lang b)"
  by auto

lemma lang_lit_iff: "s \<in> lang (lit c) \<longleftrightarrow> s = [c]"
  by (auto simp: lit_def)

lemma lang_exactly_words:
  "s \<in> lang (exactly n r) \<Longrightarrow> \<exists>ws. s = concat ws \<and> (\<forall>w \<in> set ws. w \<in> lang r)"
  by (auto simp: exactly_def)

lemma ipv4_octets_return:
  assumes "re_match ipv4_pattern v"
  shows "\<exists>b. all_octets (py_split CHR ''.'' v) = Inr b"
proof -
  let ?D = "Rep 1 (Some 3) digit"
  let ?G = "Seq ?D (lit CHR ''.'')"
  from assms have "v \<in> lang (Seq (exactly 3 ?G) ?D)"
    by (simp only: re_match_iff ipv4_pattern_def)
  then obtain x y where v: "v = x @ y" and x: "x \<in> lang (exactly 3 ?G)" and y: "y \<in> lang ?D"
    by (simp only: lang_Seq_iff) blast
  from lang_exactly_words [OF x] obtain ws where xs: "x = concat ws"
    and ws: "\<forall>w \<in> set ws. w \<in> lang ?G" by blast
  have nodot: "CHR ''.'' \<notin> set d" if "digit_text d" for d
    using that dot_not_digit unfolding digit_text_def by blast
  have groups: "\<forall>w \<in> set ws. \<exists>d. w = d @ [CHR ''.''] \<and> CHR ''.'' \<notin> set d \<and> digit_text d"
  proof
    fix w assume "w \<in> set ws"
    with ws have "w \<in> lang ?G" by blast
    then obtain d e where "w = d @ e" and "d \<in> lang ?D" and "e \<in> lang (lit CHR ''.'')"
      by (simp only: lang_Seq_iff) blast
    then have "w = d @ [CHR ''.'']" and "digit_text d"
      by (simp_all only: lang_lit_iff octet_digit_text)
    then show "\<exists>d. w = d @ [CHR ''.''] \<and> CHR ''.'' \<notin> set d \<and> digit_text d"
      using nodot by blast
  qed
  have yd: "digit_text y" using y by (rule octet_digit_text)
  have "\<forall>p \<in> set (py_split CHR ''.'' (concat ws @ y)). digit_text p"
    using groups nodot [OF yd] yd by (rule py_split_groups)
  then have "\<forall>p \<in> set (py_split CHR ''.'' v). py_int p \<noteq> None"
    using py_int_digit_text unfolding v xs by blast
  then show ?thesis by (rule all_octets_returns)
qed


text \<open>
  \<open>loads_caught\<close>: at this string \<^verbatim>\<open>json.loads\<close> returns or raises what line 79 catches.
\<close>

definition loads_caught :: "(string \<Rightarrow> outcome) \<Rightarrow> string \<Rightarrow> bool" where
  "loads_caught json_loads v = (json_loads v = Returns \<or> json_loads v = Raises ValueError)"

lemma infer_structured_returns:
  "loads_caught json_loads v \<Longrightarrow> \<exists>r. infer_structured json_loads v = Inr r"
  by (auto simp: loads_caught_def infer_structured_def)

lemma infer_identifier_returns:
  "loads_caught json_loads v \<Longrightarrow> \<exists>r. infer_identifier json_loads v = Inr r"
  using infer_structured_returns [of json_loads v] by (simp add: infer_identifier_def)

lemma infer_types_returns:
  assumes "loads_caught json_loads (strip v)"
  shows "\<exists>r. infer_types json_loads v = Inr r"
proof (cases "re_match ipv4_pattern (strip v)")
  case True
  from ipv4_octets_return [OF this] obtain b where
    "all_octets (py_split CHR ''.'' (strip v)) = Inr b" ..
  then show ?thesis
    using infer_identifier_returns [OF assms] by (cases b) (simp_all add: infer_types_def Let_def)
next
  case False
  then show ?thesis
    using infer_identifier_returns [OF assms] by (simp add: infer_types_def Let_def)
qed

lemma snd_infer_text: "snd (infer_text v) \<noteq> []"
  by (simp add: infer_text_def)

lemma snd_infer_number: "snd (infer_number v) \<noteq> []"
  by (simp add: infer_number_def snd_infer_text)

lemma snd_infer_date: "snd (infer_date v) \<noteq> []"
  by (simp add: infer_date_def snd_infer_number split: option.splits)

lemma snd_infer_collection: "snd (infer_collection v) \<noteq> []"
  by (simp add: infer_collection_def snd_infer_date)

lemma snd_infer_structured: "infer_structured j v = Inr r \<Longrightarrow> snd r \<noteq> []"
  using snd_infer_collection [of v]
  by (auto simp: infer_structured_def split: if_splits outcome.splits)

lemma snd_infer_identifier: "infer_identifier j v = Inr r \<Longrightarrow> snd r \<noteq> []"
  using snd_infer_structured [of j v r]
  by (auto simp: infer_identifier_def split: if_splits)

lemma infer_types_data_type:
  assumes "infer_types json_loads v = Inr (b, d)"
  shows "d \<noteq> []"
proof -
  have i: "infer_identifier json_loads (strip v) = Inr r \<Longrightarrow> snd r \<noteq> []" for r
    by (rule snd_infer_identifier)
  show ?thesis
  proof (cases "v = [] \<or> strip v = []")
    case True
    with assms show ?thesis by (auto simp: infer_types_def)
  next
    case blank: False
    show ?thesis
    proof (cases "lower (strip v) \<in> set boolean_literals")
      case True
      with assms blank show ?thesis by (auto simp: infer_types_def Let_def)
    next
      case bool: False
      show ?thesis
      proof (cases "re_match uuid_pattern (strip v) \<or> re_match email_pattern (strip v)
                    \<or> re_match url_pattern (strip v)")
        case True
        with assms blank bool show ?thesis
          by (auto simp: infer_types_def Let_def split: if_splits)
      next
        case pat: False
        have "infer_types json_loads v = Inr (Some ''ip_address'', ''string'')
              \<or> infer_types json_loads v = infer_identifier json_loads (strip v)
              \<or> (\<exists>e. infer_types json_loads v = Inl e)"
          using blank bool pat
          by (simp add: infer_types_def Let_def split: sum.split bool.split)
        with assms i [of "(b, d)"] show ?thesis
          by (metis Inl_Inr_False snd_conv sum.inject(2) list.distinct(1))
      qed
    qed
  qed
qed

text \<open>\<open>nested n\<close> is \<^verbatim>\<open>'[' * n + ']' * n\<close>.\<close>

definition nested :: "nat \<Rightarrow> string" where
  "nested n = replicate n CHR ''['' @ replicate n CHR '']''"

text \<open>
  A string that opens with a square bracket and closes with one reaches \<^verbatim>\<open>json.loads\<close> at line
  77: the checks of lines 23 to 70 all fail at its first character. \<open>dispatch\<close> is what
  \<open>infer_types\<close> does to such a string, whatever follows the first bracket.
\<close>

lemma takeWhile_replicate:
  "b \<noteq> a \<Longrightarrow> takeWhile (\<lambda>c. c = a) (replicate m a @ b # ys) = replicate m a"
  by (induction m) auto

lemma takeWhile_nested: "takeWhile (\<lambda>c. c = CHR ''['') (nested n) = replicate n CHR ''[''"
  by (cases n) (simp_all add: nested_def takeWhile_replicate)

lemma strip_bracketed:
  "strip (CHR ''['' # cs @ '']'') = CHR ''['' # cs @ '']''"
  by (simp add: strip_def isspace_def ws_chars_def)

lemma bracketed_reaches_loads:
  "infer_types json_loads (CHR ''['' # cs @ '']'')
   = (case json_loads (CHR ''['' # cs @ '']'') of
        Returns \<Rightarrow> Inr (Some ''json'', ''string'')
      | Raises e \<Rightarrow> if e = ValueError then Inr (infer_collection (CHR ''['' # cs @ '']''))
                    else Inl e)"
proof -
  let ?v = "CHR ''['' # cs @ '']''"
  have s: "strip ?v = ?v" by (rule strip_bracketed)
  have b: "lower ?v \<notin> set boolean_literals"
    by (simp add: boolean_literals_def lower_def lower_char_def uppers_def lowers_def)
  have p1: "\<not> re_match uuid_pattern ?v" "\<not> re_match email_pattern ?v"
    "\<not> re_match url_pattern ?v" "\<not> re_match ipv4_pattern ?v"
    by (simp_all add: rx_defs)
  have p2: "\<not> re_match ipv6_pattern ?v" "\<not> re_match mac_pattern ?v"
    "\<not> re_match cc_pattern (filter (\<lambda>c. \<not> (isspace c \<or> c = CHR ''-'')) ?v)"
    "\<not> list_ex (\<lambda>p. re_match p ?v) phone_patterns"
    by (simp_all add: rx_defs isspace_def)
  have i: "infer_identifier json_loads ?v = infer_structured json_loads ?v"
    using p2 by (simp only: infer_identifier_def if_False)
  have "infer_types json_loads ?v = infer_identifier json_loads ?v"
    using s b p1 by (simp add: infer_types_def Let_def)
  then show ?thesis
    by (simp add: i infer_structured_def startswith_def endswith_def)
qed


section \<open>Schema documents\<close>

text \<open>
  The dictionary a generator returns: \<^verbatim>\<open>$schema\<close>, \<^verbatim>\<open>type\<close>, \<^verbatim>\<open>properties\<close>, \<^verbatim>\<open>required\<close> and, when
  the key is there, \<^verbatim>\<open>metadata\<close>.

  A Python \<^verbatim>\<open>set\<close> of strings is a list without repetitions, in the order of the first
  \<^verbatim>\<open>add\<close>. Python leaves the order in which a set is listed open; it shows only in the order of
  the tags of a \<^verbatim>\<open>type\<close> or \<^verbatim>\<open>business_type\<close> list built from a set of two or more.
\<close>

record metadata =
  num_rows :: int
  num_fields :: nat
  file_type :: string

record schema =
  schema_uri :: string
  schema_type :: string
  properties :: props
  required :: "string list"
  metadata :: "metadata option"

definition draft07 :: string where
  "draft07 = ''http://json-schema.org/draft-07/schema#''"

definition set_add :: "'a \<Rightarrow> 'a list \<Rightarrow> 'a list" where
  "set_add x xs = (if x \<in> set xs then xs else xs @ [x])"

section \<open>The tabular generator\<close>

text \<open>
  \<^verbatim>\<open>generate_csv_schema\<close> (\<^verbatim>\<open>csv_schema_generator.py\<close>) reads the file through
  \<^verbatim>\<open>csv.DictReader\<close>, which is not modelled: a file is given by what the reader yields, the list
  \<^verbatim>\<open>reader.fieldnames or []\<close> and the rows, each a dictionary from field names to a string or
  to \<^verbatim>\<open>None\<close> (the value the reader gives a field that a short line leaves out). A missing
  file is \<open>None\<close>.

  \<^verbatim>\<open>infer_types\<close> returns at once on \<^verbatim>\<open>None\<close>, by \<^verbatim>\<open>not value\<close> at line 16: \<open>infer_cell\<close>.
  \<open>column_types\<close> holds the two dictionaries of sets, \<^verbatim>\<open>column_business_types\<close> and
  \<^verbatim>\<open>column_data_types\<close>; both have every header as a key from the start.
\<close>

type_synonym csv_row = "(string \<times> string option) list"

record csv_file =
  fieldnames :: "string list"
  csv_rows :: "csv_row list"

definition row_get :: "csv_row \<Rightarrow> string \<Rightarrow> string option" where
  "row_get row header = (case map_of row header of None \<Rightarrow> Some [] | Some v \<Rightarrow> v)"

definition infer_cell :: "(string \<Rightarrow> outcome) \<Rightarrow> string option \<Rightarrow> py_error + classified" where
  "infer_cell json_loads v =
     (case v of None \<Rightarrow> Inr (None, ''null'') | Some s \<Rightarrow> infer_types json_loads s)"

type_synonym column_types = "(string \<Rightarrow> string list) \<times> (string \<Rightarrow> string list)"

text \<open>Lines 23-29, the loop over the headers for one row.\<close>

fun scan_row :: "(string \<Rightarrow> outcome) \<Rightarrow> csv_row \<Rightarrow> string list \<Rightarrow> column_types
    \<Rightarrow> py_error + column_types" where
  "scan_row json_loads row [] st = Inr st"
| "scan_row json_loads row (header # rest) (column_business_types, column_data_types) =
     (case infer_cell json_loads (row_get row header) of
        Inl e \<Rightarrow> Inl e
      | Inr (business_type, data_type) \<Rightarrow>
          scan_row json_loads row rest
            ((case business_type of
                None \<Rightarrow> column_business_types
              | Some b \<Rightarrow>
                  if b = [] then column_business_types
                  else column_business_types
                         (header := set_add b (column_business_types header))),
             column_data_types (header := set_add data_type (column_data_types header))))"

text \<open>Lines 18-31, the loop over the rows; it stops when \<^verbatim>\<open>row_count >= sample_rows\<close>.\<close>

fun scan_rows :: "(string \<Rightarrow> outcome) \<Rightarrow> string list \<Rightarrow> int \<Rightarrow> csv_row list \<Rightarrow> int
    \<Rightarrow> column_types \<Rightarrow> py_error + column_types" where
  "scan_rows json_loads headers sample_rows [] row_count st = Inr st"
| "scan_rows json_loads headers sample_rows (row # rest) row_count st =
     (if row_count \<ge> sample_rows then Inr st
      else (case scan_row json_loads row headers st of
              Inl e \<Rightarrow> Inl e
            | Inr st' \<Rightarrow> scan_rows json_loads headers sample_rows rest (row_count + 1) st'))"

text \<open>Lines 38-79 for one header: the property, and whether the header is required.\<close>

definition column_prop :: "string \<Rightarrow> string list \<Rightarrow> string list \<Rightarrow> pschema \<times> bool" where
  "column_prop header business_types data_types =
     (let non_null_data_types = filter (\<lambda>t. t \<noteq> ''null'') data_types;
          description = Some (''Column: '' @ header);
          (prop, req) =
            (case non_null_data_types of
               [] \<Rightarrow> (Prop (TList [TStr ''string'', TStr ''null'']) description TNone None None,
                      False)
             | [data_type] \<Rightarrow>
                 if ''null'' \<in> set data_types
                 then (Prop (TList [TStr data_type, TStr ''null'']) description TNone None None,
                       False)
                 else (Prop (TStr data_type) description TNone None None, True)
             | _ \<Rightarrow>
                 (Prop (TList (map TStr (non_null_data_types
                                          @ (if ''null'' \<in> set data_types then [''null''] else []))))
                       description TNone None None,
                  False))
      in (case business_types of
            [] \<Rightarrow> prop
          | [b] \<Rightarrow> set_business_type (TStr b) prop
          | _ \<Rightarrow> set_business_type (TList (map TStr business_types)) prop,
          req))"

text \<open>Lines 34-81, the loop that builds \<^verbatim>\<open>properties\<close> and \<^verbatim>\<open>required\<close>.\<close>

fun build_schema :: "column_types \<Rightarrow> string list \<Rightarrow> props \<times> string list \<Rightarrow> props \<times> string list" where
  "build_schema st [] acc = acc"
| "build_schema (column_business_types, column_data_types) (header # rest) (props, req) =
     (let (prop, is_required) =
            column_prop header (column_business_types header) (column_data_types header)
      in build_schema (column_business_types, column_data_types) rest
           (dict_set header prop props, if is_required then req @ [header] else req))"

definition generate_csv_schema :: "(string \<Rightarrow> outcome) \<Rightarrow> csv_file option \<Rightarrow> int
    \<Rightarrow> py_error + schema" where
  "generate_csv_schema json_loads file sample_rows =
     (case file of
        None \<Rightarrow> Inl FileNotFoundError
      | Some f \<Rightarrow>
          (let headers = fieldnames f
           in case scan_rows json_loads headers sample_rows (csv_rows f) 0
                     (\<lambda>header. [], \<lambda>header. []) of
                Inl e \<Rightarrow> Inl e
              | Inr st \<Rightarrow>
                  (let (props, req) = build_schema st headers ([], [])
                   in Inr \<lparr>schema_uri = draft07, schema_type = ''object'',
                            properties = props, required = req, metadata = None\<rparr>)))"

section \<open>The line-delimited JSON generator\<close>

text \<open>
  A decoded JSON value, as \<^verbatim>\<open>json.loads\<close> returns it. A float is kept as the text \<^verbatim>\<open>str\<close> gives
  it (for instance \<^verbatim>\<open>45.67\<close>): the code reads a float through \<^verbatim>\<open>isinstance\<close> and \<^verbatim>\<open>str\<close> only.
  A dictionary is the list of its items in insertion order; the keys of a dictionary are
  pairwise different, which a statement that needs it assumes.

  \<^verbatim>\<open>json.dumps\<close> is not modelled: \<open>json_dumps\<close> is a parameter that gives the text, or the
  exception the call raises (\<^verbatim>\<open>RecursionError\<close> on a value nested too deeply).
\<close>

datatype json = JNull | JBool bool | JInt int | JFloat string | JStr string
  | JList "json list" | JObj "(string \<times> json) list"

fun python_type_to_json_schema_type :: "json \<Rightarrow> string" where
  "python_type_to_json_schema_type JNull = ''null''"
| "python_type_to_json_schema_type (JBool b) = ''boolean''"
| "python_type_to_json_schema_type (JInt i) = ''integer''"
| "python_type_to_json_schema_type (JFloat s) = ''number''"
| "python_type_to_json_schema_type (JStr s) = ''string''"
| "python_type_to_json_schema_type (JList xs) = ''array''"
| "python_type_to_json_schema_type (JObj d) = ''object''"

text \<open>\<^verbatim>\<open>str(n)\<close> for an integer.\<close>

function show_nat :: "nat \<Rightarrow> string" where
  "show_nat n = (if n < 10 then [digits ! n]
                 else show_nat (n div 10) @ [digits ! (n mod 10)])"
  by pat_completeness auto
termination
  by (relation "measure id") auto

declare show_nat.simps [simp del]

lemma show_nat_small: "n < 10 \<Longrightarrow> show_nat n = [digits ! n]"
  by (simp add: show_nat.simps)

lemma show_nat_big: "\<not> n < 10 \<Longrightarrow> show_nat n = show_nat (n div 10) @ [digits ! (n mod 10)]"
  by (subst show_nat.simps) simp

definition show_int :: "int \<Rightarrow> string" where
  "show_int i = (if i < 0 then CHR ''-'' # show_nat (nat (- i)) else show_nat (nat i))"

text \<open>
  Lines 74 and 126: \<^verbatim>\<open>json.dumps(item) if isinstance(item, (dict, list)) else str(item)\<close>; at
  line 126 the value is neither a dictionary nor a list.
\<close>

fun item_str :: "(json \<Rightarrow> py_error + string) \<Rightarrow> json \<Rightarrow> py_error + string" where
  "item_str json_dumps JNull = Inr ''None''"
| "item_str json_dumps (JBool b) = Inr (if b then ''True'' else ''False'')"
| "item_str json_dumps (JInt i) = Inr (show_int i)"
| "item_str json_dumps (JFloat s) = Inr s"
| "item_str json_dumps (JStr s) = Inr s"
| "item_str json_dumps (JList xs) = json_dumps (JList xs)"
| "item_str json_dumps (JObj d) = json_dumps (JObj d)"

text \<open>Lines 75-78: the classification of the text of an item, added to the two sets.\<close>

definition classify_item :: "(string \<Rightarrow> outcome) \<Rightarrow> (json \<Rightarrow> py_error + string) \<Rightarrow> json
    \<Rightarrow> string list \<times> string list \<Rightarrow> py_error + (string list \<times> string list)" where
  "classify_item json_loads json_dumps item acc =
     (case acc of (item_types, item_business_types) \<Rightarrow>
        (case item_str json_dumps item of
           Inl e \<Rightarrow> Inl e
         | Inr text_of_item \<Rightarrow>
             (case infer_types json_loads text_of_item of
                Inl e \<Rightarrow> Inl e
              | Inr (business_type, inferred_type) \<Rightarrow>
                  Inr (set_add inferred_type item_types,
                       (case business_type of
                          None \<Rightarrow> item_business_types
                        | Some b \<Rightarrow> if b = [] then item_business_types
                                    else set_add b item_business_types)))))"

text \<open>Lines 69-78, the loop over the first ten items of a non-empty array.\<close>

fun scan_items :: "(string \<Rightarrow> outcome) \<Rightarrow> (json \<Rightarrow> py_error + string) \<Rightarrow> bool \<Rightarrow> json list
    \<Rightarrow> string list \<times> string list \<Rightarrow> py_error + (string list \<times> string list)" where
  "scan_items json_loads json_dumps use_business_types [] acc = Inr acc"
| "scan_items json_loads json_dumps use_business_types (item # rest)
       (item_types, item_business_types) =
     (let item_types' = set_add (python_type_to_json_schema_type item) item_types
      in if use_business_types then
           (case classify_item json_loads json_dumps item (item_types', item_business_types) of
              Inl e \<Rightarrow> Inl e
            | Inr acc \<Rightarrow> scan_items json_loads json_dumps use_business_types rest acc)
         else scan_items json_loads json_dumps use_business_types rest
                (item_types', item_business_types))"

text \<open>Lines 81-97 without the nested object, and lines 105-109.\<close>

definition items_type :: "string list \<Rightarrow> py_error + tv" where
  "items_type item_types =
     (case item_types of
        [item_type] \<Rightarrow> Inr (TStr item_type)
      | _ \<Rightarrow>
          (let type_list = filter (\<lambda>t. t \<noteq> ''null'') item_types
                           @ (if ''null'' \<in> set item_types then [''null''] else [])
           in if 1 < length type_list then Inr (TList (map TStr type_list))
              else (case type_list of [] \<Rightarrow> Inl IndexError | t # _ \<Rightarrow> Inr (TStr t))))"

definition items_business_type :: "bool \<Rightarrow> string list \<Rightarrow> tv" where
  "items_business_type use_business_types item_business_types =
     (if use_business_types then
        (case item_business_types of
           [] \<Rightarrow> TNone
         | [b] \<Rightarrow> TStr b
         | _ \<Rightarrow> TList (map TStr item_business_types))
      else TNone)"

text \<open>Lines 119-132, a value that is not \<^verbatim>\<open>None\<close>, a dictionary or a list.\<close>

definition primitive_prop :: "(string \<Rightarrow> outcome) \<Rightarrow> (json \<Rightarrow> py_error + string) \<Rightarrow> bool
    \<Rightarrow> string \<Rightarrow> json \<Rightarrow> py_error + pschema" where
  "primitive_prop json_loads json_dumps use_business_types full_path v =
     (let json_type = python_type_to_json_schema_type v;
          prop = Prop (TStr json_type) (Some (''Field: '' @ full_path)) TNone None None
      in if use_business_types then
           (case item_str json_dumps v of
              Inl e \<Rightarrow> Inl e
            | Inr value_str \<Rightarrow>
                (case infer_types json_loads value_str of
                   Inl e \<Rightarrow> Inl e
                 | Inr (business_type, inferred_type) \<Rightarrow>
                     (let prop' = (case business_type of
                                     None \<Rightarrow> prop
                                   | Some b \<Rightarrow> if b = [] then prop
                                               else set_business_type (TStr b) prop)
                      in Inr (if inferred_type \<noteq> json_type \<and> inferred_type \<noteq> ''null''
                              then set_type (TStr inferred_type) prop' else prop'))))
         else Inr prop)"

text \<open>
  \<^verbatim>\<open>_process_nested_object\<close> (lines 26-136): \<open>process_object\<close> is the loop over the items of a
  dictionary, with the dictionary \<^verbatim>\<open>properties\<close> built so far as its last argument, and
  \<open>process_value\<close> is the body of the loop for one value. The parameter \<^verbatim>\<open>sample_rows\<close> of the
  source is passed on and never read.

  The function calls itself once for each level of nesting, and the interpreter raises
  \<^verbatim>\<open>RecursionError\<close> when the calls are nested more deeply than its recursion limit allows.
  \<open>depth\<close> is the number of nested calls of the function that the interpreter still allows;
  the frames that the library calls need are not counted.
\<close>

fun process_value :: "(string \<Rightarrow> outcome) \<Rightarrow> (json \<Rightarrow> py_error + string) \<Rightarrow> bool \<Rightarrow> nat
    \<Rightarrow> string \<Rightarrow> json \<Rightarrow> py_error + pschema"
  and process_object :: "(string \<Rightarrow> outcome) \<Rightarrow> (json \<Rightarrow> py_error + string) \<Rightarrow> bool \<Rightarrow> nat
    \<Rightarrow> string \<Rightarrow> (string \<times> json) list \<Rightarrow> props \<Rightarrow> py_error + props"
where
  "process_value json_loads json_dumps use_business_types depth full_path JNull =
     Inr (Prop (TStr ''null'') (Some (''Field: '' @ full_path)) TNone None None)"
| "process_value json_loads json_dumps use_business_types depth full_path (JObj d) =
     (if depth = 0 then Inl RecursionError
      else
        (case process_object json_loads json_dumps use_business_types (depth - 1) full_path d []
         of
           Inl e \<Rightarrow> Inl e
         | Inr nested_props \<Rightarrow>
             Inr (Prop (TStr ''object'') (Some (''Field: '' @ full_path @ '' (nested object)''))
                    TNone (Some nested_props) None)))"
| "process_value json_loads json_dumps use_business_types depth full_path (JList []) =
     Inr (Prop (TStr ''array'') (Some (''Field: '' @ full_path @ '' (empty array)''))
            TNone None (Some empty_dict))"
| "process_value json_loads json_dumps use_business_types depth full_path
       (JList (first # others)) =
     (case scan_items json_loads json_dumps use_business_types (take 10 (first # others))
             ([], []) of
        Inl e \<Rightarrow> Inl e
      | Inr (item_types, item_business_types) \<Rightarrow>
          (case (if item_types = [''object'']
                 then (case first of
                         JObj d \<Rightarrow>
                           (if depth = 0 then Inl RecursionError
                            else
                              (case process_object json_loads json_dumps use_business_types
                                      (depth - 1) (full_path @ ''[]'') d [] of
                                 Inl e \<Rightarrow> Inl e
                               | Inr nested_props \<Rightarrow>
                                   Inr (Prop (TStr ''object'') None TNone (Some nested_props)
                                          None)))
                       | _ \<Rightarrow> Inr (Prop (TStr ''object'') None TNone None None))
                 else (case items_type item_types of
                         Inl e \<Rightarrow> Inl e
                       | Inr t \<Rightarrow> Inr (Prop t None TNone None None))) of
             Inl e \<Rightarrow> Inl e
           | Inr items_schema \<Rightarrow>
               Inr (Prop (TStr ''array'') (Some (''Field: '' @ full_path @ '' (array)'')) TNone None
                      (Some (set_business_type
                               (items_business_type use_business_types item_business_types)
                               items_schema)))))"
| "process_value json_loads json_dumps use_business_types depth full_path v =
     primitive_prop json_loads json_dumps use_business_types full_path v"
| "process_object json_loads json_dumps use_business_types depth path [] props_acc =
     Inr props_acc"
| "process_object json_loads json_dumps use_business_types depth path ((key, v) # rest)
       props_acc =
     (case process_value json_loads json_dumps use_business_types depth
             (if path \<noteq> [] then path @ ''.'' @ key else key) v of
        Inl e \<Rightarrow> Inl e
      | Inr prop \<Rightarrow>
          process_object json_loads json_dumps use_business_types depth path rest
            (dict_set key prop props_acc))"

text \<open>
  \<^verbatim>\<open>track_fields\<close> (lines 323-331) adds one to the count of every key it visits, in
  \<^verbatim>\<open>all_field_presence\<close>, and calls itself on a nested dictionary and on the first item of a
  list when that is a dictionary (lines 329-332, \<open>track_value\<close>); \<open>depth\<close> is as above.
\<close>

definition bump :: "string \<Rightarrow> (string \<times> int) list \<Rightarrow> (string \<times> int) list" where
  "bump full_key all_field_presence =
     dict_set full_key
       ((case map_of all_field_presence full_key of None \<Rightarrow> 0 | Some c \<Rightarrow> c) + 1)
       all_field_presence"

fun track_value :: "nat \<Rightarrow> string \<Rightarrow> json \<Rightarrow> (string \<times> int) list
    \<Rightarrow> py_error + (string \<times> int) list"
  and track_fields :: "nat \<Rightarrow> (string \<times> json) list \<Rightarrow> string \<Rightarrow> (string \<times> int) list
    \<Rightarrow> py_error + (string \<times> int) list"
where
  "track_value depth full_key (JObj d) presence =
     (if depth = 0 then Inl RecursionError else track_fields (depth - 1) d full_key presence)"
| "track_value depth full_key (JList (JObj d # others)) presence =
     (if depth = 0 then Inl RecursionError
      else track_fields (depth - 1) d (full_key @ ''[]'') presence)"
| "track_value depth full_key v presence = Inr presence"
| "track_fields depth [] prefix presence = Inr presence"
| "track_fields depth ((key, v) # rest) prefix presence =
     (let full_key = (if prefix \<noteq> [] then prefix @ ''.'' @ key else key)
      in case track_value depth full_key v (bump full_key presence) of
           Inl e \<Rightarrow> Inl e
         | Inr presence' \<Rightarrow> track_fields depth rest prefix presence')"

text \<open>
  A line of the file, as lines 306-311 see it: blank after \<^verbatim>\<open>strip\<close>, or a text on which
  \<^verbatim>\<open>json.loads\<close> raises \<^verbatim>\<open>JSONDecodeError\<close> (\<open>Undecodable\<close>) or another exception, or a text that
  decodes to a value. \<open>read_lines\<close> is the loop of lines 302-339, \<open>reader\<close> its variables, and
  \<open>recursion_limit\<close> the number of nested calls that the interpreter allows a function called
  from the loop.
\<close>

datatype jline = Blank | Undecodable | Raising py_error | Decoded json

record reader =
  object_schemas :: "props list"
  all_field_presence :: "(string \<times> int) list"
  total_rows :: int
  row_count :: int

text \<open>Lines 318-335 for a line that decodes to the dictionary \<open>d\<close>.\<close>

definition process_record :: "(string \<Rightarrow> outcome) \<Rightarrow> (json \<Rightarrow> py_error + string) \<Rightarrow> bool \<Rightarrow> nat
    \<Rightarrow> (string \<times> json) list \<Rightarrow> reader \<Rightarrow> py_error + reader" where
  "process_record json_loads json_dumps use_business_types recursion_limit d st =
     (if recursion_limit = 0 then Inl RecursionError
      else
        (case process_object json_loads json_dumps use_business_types (recursion_limit - 1)
                [] d [] of
           Inl e \<Rightarrow> Inl e
         | Inr obj_schema \<Rightarrow>
             (case track_fields (recursion_limit - 1) d [] (all_field_presence st) of
                Inl e \<Rightarrow> Inl e
              | Inr presence \<Rightarrow>
                  Inr (st\<lparr>object_schemas := object_schemas st @ [obj_schema],
                          all_field_presence := presence,
                          row_count := row_count st + 1\<rparr>))))"

fun read_lines :: "(string \<Rightarrow> outcome) \<Rightarrow> (json \<Rightarrow> py_error + string) \<Rightarrow> bool \<Rightarrow> nat \<Rightarrow> int
    \<Rightarrow> jline list \<Rightarrow> reader \<Rightarrow> py_error + reader" where
  "read_lines json_loads json_dumps use_business_types recursion_limit sample_rows [] st =
     Inr st"
| "read_lines json_loads json_dumps use_business_types recursion_limit sample_rows
       (line # rest) st =
     (if row_count st \<ge> sample_rows then Inr st
      else
        (case line of
           Blank \<Rightarrow>
             read_lines json_loads json_dumps use_business_types recursion_limit sample_rows
               rest st
         | Undecodable \<Rightarrow>
             read_lines json_loads json_dumps use_business_types recursion_limit sample_rows
               rest st
         | Raising e \<Rightarrow> Inl e
         | Decoded obj \<Rightarrow>
             (case obj of
                JObj d \<Rightarrow>
                  (case process_record json_loads json_dumps use_business_types recursion_limit
                          d (st\<lparr>total_rows := total_rows st + 1\<rparr>) of
                     Inl e \<Rightarrow> Inl e
                   | Inr st' \<Rightarrow>
                       read_lines json_loads json_dumps use_business_types recursion_limit
                         sample_rows rest st')
              | _ \<Rightarrow>
                  read_lines json_loads json_dumps use_business_types recursion_limit
                    sample_rows rest (st\<lparr>total_rows := total_rows st + 1\<rparr>))))"

definition generate_jsonl_schema :: "(string \<Rightarrow> outcome) \<Rightarrow> (json \<Rightarrow> py_error + string) \<Rightarrow> nat
    \<Rightarrow> jline list option \<Rightarrow> int \<Rightarrow> bool \<Rightarrow> py_error + schema" where
  "generate_jsonl_schema json_loads json_dumps recursion_limit file sample_rows
       use_business_types =
     (case file of
        None \<Rightarrow> Inl FileNotFoundError
      | Some lines \<Rightarrow>
          (case read_lines json_loads json_dumps use_business_types recursion_limit sample_rows
                  lines
                  \<lparr>object_schemas = [], all_field_presence = [], total_rows = 0, row_count = 0\<rparr>
           of
             Inl e \<Rightarrow> Inl e
           | Inr st \<Rightarrow>
               if object_schemas st = [] then
                 Inr \<lparr>schema_uri = draft07, schema_type = ''object'', properties = [],
                      required = [], metadata = None\<rparr>
               else
                 (let merged_properties = merge_properties (object_schemas st) use_business_types;
                      required_fields =
                        map fst (filter (\<lambda>(field, count). count = total_rows st
                                                       \<and> CHR ''.'' \<notin> set field)
                                        (all_field_presence st))
                  in Inr \<lparr>schema_uri = draft07, schema_type = ''object'',
                           properties = merged_properties, required = required_fields,
                           metadata = Some \<lparr>num_rows = total_rows st,
                                             num_fields = length merged_properties,
                                             file_type = ''jsonl''\<rparr>\<rparr>)))"

section \<open>The entry point\<close>





section \<open>The scenarios of the specification\<close>

text \<open>
  Scenario 1: the header \<^verbatim>\<open>name,age,email\<close> and two rows, as \<^verbatim>\<open>csv.DictReader\<close> yields them.
\<close>

definition people :: csv_file where
  "people =
     \<lparr>fieldnames = [''name'', ''age'', ''email''],
      csv_rows =
        [[(''name'', Some ''John''), (''age'', Some ''30''), (''email'', Some ''john@x.com'')],
         [(''name'', Some ''Jane''), (''age'', Some ''25''), (''email'', Some ''jane@x.com'')]]\<rparr>"


text \<open>
  Scenario 3: the lines \<^verbatim>\<open>{"value":"text"}\<close>, \<^verbatim>\<open>{"value":123}\<close> and \<^verbatim>\<open>{"value":45.67}\<close>, decoded.
\<close>

definition mixed :: "jline list" where
  "mixed =
     [Decoded (JObj [(''value'', JStr ''text'')]),
      Decoded (JObj [(''value'', JInt 123)]),
      Decoded (JObj [(''value'', JFloat ''45.67'')])]"


text \<open>The definitions a concrete run of a generator unfolds, and the cells of the scenarios.\<close>

lemmas csv_defs = generate_csv_schema_def column_prop_def row_get_def infer_cell_def set_add_def
  dict_set_def set_business_type_def draft07_def

lemmas jsonl_defs = generate_jsonl_schema_def process_record_def primitive_prop_def
  classify_item_def items_type_def items_business_type_def bump_def set_add_def dict_set_def
  set_business_type_def set_type_def draft07_def merge_properties_def

lemma show_int_123: "show_int 123 = ''123''"
  by (simp add: show_int_def show_nat_big show_nat_small digits_def)

lemma infer_types_text: "infer_types json_loads ''text'' = Inr (None, ''string'')"
  by (simp add: infer_defs rx_defs py_defs strptime_defs)

lemma infer_types_123: "infer_types json_loads ''123'' = Inr (Some ''timestamp'', ''number'')"
  by (simp add: infer_defs rx_defs py_defs strptime_defs)

lemma infer_types_45_67: "infer_types json_loads ''45.67'' = Inr (Some ''timestamp'', ''number'')"
  by (simp add: infer_defs rx_defs py_defs strptime_defs)



lemma people_generated:
  "generate_csv_schema json_loads (Some people) 100
   = Inr \<lparr>schema_uri = draft07, schema_type = ''object'',
          properties =
            [(''name'', Prop (TStr ''string'') (Some ''Column: name'') TNone None None),
             (''age'', Prop (TStr ''number'') (Some ''Column: age'') (TStr ''timestamp'') None
                         None),
             (''email'', Prop (TStr ''string'') (Some ''Column: email'') (TStr ''email'') None
                           None)],
          required = [''name'', ''age'', ''email''], metadata = None\<rparr>"
  by (simp add: people_def csv_defs infer_defs rx_defs py_defs strptime_defs)

section \<open>Lines read and rows counted\<close>

text \<open>
  What the reader loop consumes, in the words of the specification: \<open>lines_read\<close> is the list
  of the lines the loop looks at before it stops, which it does at the end of the file or
  once \<^verbatim>\<open>sample_rows\<close> object records have been processed; a line \<open>is_decoded\<close> when
  \<^verbatim>\<open>json.loads\<close> returns a value for it, and \<open>is_record\<close> when that value is an object.
\<close>

fun is_decoded :: "jline \<Rightarrow> bool" where
  "is_decoded (Decoded v) = True"
| "is_decoded l = False"

fun is_record :: "jline \<Rightarrow> bool" where
  "is_record (Decoded (JObj d)) = True"
| "is_record l = False"

fun lines_read :: "int \<Rightarrow> int \<Rightarrow> jline list \<Rightarrow> jline list" where
  "lines_read sample_rows processed [] = []"
| "lines_read sample_rows processed (l # ls) =
     (if processed \<ge> sample_rows then []
      else l # lines_read sample_rows (if is_record l then processed + 1 else processed) ls)"

lemma process_record_effect:
  assumes "process_record json_loads json_dumps use_business_types recursion_limit d st = Inr st'"
  shows "total_rows st' = total_rows st \<and> row_count st' = row_count st + 1
         \<and> length (object_schemas st') = length (object_schemas st) + 1"
  using assms by (auto simp: process_record_def split: if_splits sum.splits)

lemma read_lines_counts:
  "read_lines json_loads json_dumps use_business_types recursion_limit sample_rows ls st = Inr st'
   \<Longrightarrow> total_rows st'
         = total_rows st + int (length (filter is_decoded (lines_read sample_rows (row_count st) ls)))
       \<and> length (object_schemas st')
         = length (object_schemas st)
           + length (filter is_record (lines_read sample_rows (row_count st) ls))"
proof (induction ls arbitrary: st)
  case Nil
  then show ?case by simp
next
  case (Cons l ls)
  show ?case
  proof (cases "row_count st \<ge> sample_rows")
    case True
    with Cons.prems show ?thesis by simp
  next
    case False
    show ?thesis
    proof (cases l)
      case Blank
      with False Cons.prems Cons.IH [of st] show ?thesis by simp
    next
      case Undecodable
      with False Cons.prems Cons.IH [of st] show ?thesis by simp
    next
      case (Raising e)
      with False Cons.prems show ?thesis by simp
    next
      case (Decoded v)
      let ?st1 = "st\<lparr>total_rows := total_rows st + 1\<rparr>"
      show ?thesis
      proof (cases "\<exists>d. v = JObj d")
        case True
        then obtain d where v: "v = JObj d" ..
        from Cons.prems False Decoded v obtain st2 where
          p: "process_record json_loads json_dumps use_business_types recursion_limit d ?st1
              = Inr st2"
          and r: "read_lines json_loads json_dumps use_business_types recursion_limit sample_rows
                    ls st2 = Inr st'"
          by (auto split: sum.splits)
        from process_record_effect [OF p] have
          e: "total_rows st2 = total_rows st + 1" "row_count st2 = row_count st + 1"
             "length (object_schemas st2) = length (object_schemas st) + 1" by simp_all
        from Cons.IH [OF r] e False Decoded v show ?thesis by simp
      next
        case other: False
        then have n: "\<not> is_record (Decoded v)" by (cases v) auto
        from Cons.prems False Decoded other have
          r: "read_lines json_loads json_dumps use_business_types recursion_limit sample_rows
                ls ?st1 = Inr st'"
          by (cases v) auto
        from Cons.IH [OF r] False Decoded n show ?thesis by simp
      qed
    qed
  qed
qed

section \<open>Required fields\<close>
























section \<open>Claims about the schema merger\<close>

text \<open>
  C4 (merge associativity): merging three property maps pairwise from the left should equal
  merging them pairwise from the right. The code does not do so: with
  \<^verbatim>\<open>A = {"value": {"type": "string"}}\<close>, \<^verbatim>\<open>B = {"value": {"type": "integer"}}\<close> and
  \<^verbatim>\<open>C = {"value": {"type": "string"}}\<close>, the left grouping gives the type
  \<^verbatim>\<open>["string", "integer"]\<close>, and the right grouping gives the scalar \<^verbatim>\<open>"string"\<close>: when the
  incoming type is a list that already holds the existing scalar, line 217 (the assignment of
  the list) is skipped together with the \<^verbatim>\<open>append\<close>, and the tag \<^verbatim>\<open>integer\<close> is lost.
\<close>

theorem merge_not_associative:
  "merge_properties
     [merge_properties
        [[(''value'', Prop (TStr ''string'') (Some ''Field: value'') TNone None None)],
         [(''value'', Prop (TStr ''integer'') (Some ''Field: value'') TNone None None)]] True,
      [(''value'', Prop (TStr ''string'') (Some ''Field: value'') TNone None None)]] True
   = [(''value'', Prop (TList [TStr ''string'', TStr ''integer'']) (Some ''Field: value'') TNone None None)]
   \<and> merge_properties
     [[(''value'', Prop (TStr ''string'') (Some ''Field: value'') TNone None None)],
      merge_properties
        [[(''value'', Prop (TStr ''integer'') (Some ''Field: value'') TNone None None)],
         [(''value'', Prop (TStr ''string'') (Some ''Field: value'') TNone None None)]] True] True
   = [(''value'', Prop (TStr ''string'') (Some ''Field: value'') TNone None None)]"
  by (simp add: merge_eval)


text \<open>
  C5 (type-union shapes), as the code has it. For a key present in both property maps, outside
  the object/object and array/array branches: equal \<^verbatim>\<open>type\<close> values are left as they are; two
  different scalars \<open>a\<close>, \<open>b\<close> give the list \<open>[a, b]\<close>; an existing list and an incoming scalar
  give the existing list, with the scalar appended when it is absent; an existing scalar and
  an incoming list that does not hold it give the incoming list with the scalar appended.
  \<^verbatim>\<open>business_type\<close> is merged only when \<^verbatim>\<open>use_business_types\<close> is set: it is left as it is when
  the two are equal or the incoming one is missing, it becomes the incoming scalar when the
  existing one is missing, and otherwise follows the same three shapes for non-empty tags.
\<close>

theorem merge_type_union_shapes:
  assumes "distinct (map fst A)" and "distinct (map fst B)"
      and "map_of A k = Some e" and "map_of B k = Some v"
      and "\<not> (p_type e = TStr ''object'' \<and> p_type v = TStr ''object'')"
      and "\<not> (p_type e = TStr ''array'' \<and> p_type v = TStr ''array'')"
  shows "\<exists>r. map_of (merge_properties [A, B] ubt) k = Some r
     \<and> (p_type e = p_type v \<longrightarrow> p_type r = p_type e)
     \<and> (\<forall>a b. p_type e = TStr a \<and> p_type v = TStr b \<and> a \<noteq> b
            \<longrightarrow> p_type r = TList [TStr a, TStr b])
     \<and> (\<forall>xs b. p_type e = TList xs \<and> p_type v = TStr b
            \<longrightarrow> p_type r = (if TStr b \<in> set xs then TList xs else TList (xs @ [TStr b])))
     \<and> (\<forall>a ys. p_type e = TStr a \<and> p_type v = TList ys \<and> TStr a \<notin> set ys
            \<longrightarrow> p_type r = TList (ys @ [TStr a]))
     \<and> (\<not> ubt \<or> p_business_type e = p_business_type v \<or> p_business_type v = TNone
            \<longrightarrow> p_business_type r = p_business_type e)
     \<and> (\<forall>b. ubt \<and> p_business_type e = TNone \<and> p_business_type v = TStr b \<and> b \<noteq> []
            \<longrightarrow> p_business_type r = TStr b)
     \<and> (\<forall>a b. ubt \<and> p_business_type e = TStr a \<and> p_business_type v = TStr b
               \<and> a \<noteq> [] \<and> b \<noteq> [] \<and> a \<noteq> b
            \<longrightarrow> p_business_type r = TList [TStr a, TStr b])
     \<and> (\<forall>xs b. ubt \<and> p_business_type e = TList xs \<and> p_business_type v = TStr b \<and> b \<noteq> []
            \<longrightarrow> p_business_type r
                  = (if TStr b \<in> set xs then TList xs else TList (xs @ [TStr b])))
     \<and> (\<forall>a ys. ubt \<and> p_business_type e = TStr a \<and> a \<noteq> [] \<and> p_business_type v = TList ys
               \<and> TStr a \<notin> set ys
            \<longrightarrow> p_business_type r = TList (ys @ [TStr a]))"
proof -
  let ?r = "merge_value ubt e v"
  have look: "map_of (merge_properties [A, B] ubt) k = Some ?r"
    using assms(1-4) by (rule merge_two)
  have t: "p_type ?r = union_type (p_type e) (p_type v)"
    using assms(5,6) by (rule merge_value_primitive(1))
  have b: "p_business_type ?r =
           (if ubt then p_business_type (merge_business_type e v) else p_business_type e)"
    using assms(5,6) by (rule merge_value_primitive(2))
  have "p_type e = p_type v \<longrightarrow> p_type ?r = p_type e"
    by (simp add: t union_type_def)
  moreover have "\<forall>a b. p_type e = TStr a \<and> p_type v = TStr b \<and> a \<noteq> b
            \<longrightarrow> p_type ?r = TList [TStr a, TStr b]"
    by (simp add: t union_type_def)
  moreover have "\<forall>xs b. p_type e = TList xs \<and> p_type v = TStr b
            \<longrightarrow> p_type ?r = (if TStr b \<in> set xs then TList xs else TList (xs @ [TStr b]))"
    by (simp add: t union_type_def)
  moreover have "\<forall>a ys. p_type e = TStr a \<and> p_type v = TList ys \<and> TStr a \<notin> set ys
            \<longrightarrow> p_type ?r = TList (ys @ [TStr a])"
    by (simp add: t union_type_def)
  moreover have "\<not> ubt \<or> p_business_type e = p_business_type v \<or> p_business_type v = TNone
            \<longrightarrow> p_business_type ?r = p_business_type e"
    using b by (cases "p_business_type e") (auto simp: merge_business_type_def Let_def)
  moreover have "\<forall>b. ubt \<and> p_business_type e = TNone \<and> p_business_type v = TStr b \<and> b \<noteq> []
            \<longrightarrow> p_business_type ?r = TStr b"
    using b by (auto simp: merge_business_type_def Let_def)
  moreover have "\<forall>a b. ubt \<and> p_business_type e = TStr a \<and> p_business_type v = TStr b
               \<and> a \<noteq> [] \<and> b \<noteq> [] \<and> a \<noteq> b
            \<longrightarrow> p_business_type ?r = TList [TStr a, TStr b]"
    using b by (auto simp: merge_business_type_def Let_def)
  moreover have "\<forall>xs b. ubt \<and> p_business_type e = TList xs \<and> p_business_type v = TStr b \<and> b \<noteq> []
            \<longrightarrow> p_business_type ?r
                  = (if TStr b \<in> set xs then TList xs else TList (xs @ [TStr b]))"
    using b by (auto simp: merge_business_type_def Let_def)
  moreover have "\<forall>a ys. ubt \<and> p_business_type e = TStr a \<and> a \<noteq> [] \<and> p_business_type v = TList ys
               \<and> TStr a \<notin> set ys
            \<longrightarrow> p_business_type ?r = TList (ys @ [TStr a])"
    using b by (auto simp: merge_business_type_def Let_def)
  ultimately show ?thesis using look by blast
qed



text \<open>
  Three runs of C5's theorem: scalar with scalar, list with scalar, scalar with list.
\<close>

theorem merge_type_union_shapes_witness:
  "(\<exists>r. map_of (merge_properties
               [[(''value'', Prop (TStr ''string'') (Some ''Field: value'') (TStr ''email'') None None)],
                [(''value'', Prop (TStr ''integer'') (Some ''Field: value'') (TStr ''url'') None None)]]
               True) ''value'' = Some r
        \<and> p_type r = TList [TStr ''string'', TStr ''integer'']
        \<and> p_business_type r = TList [TStr ''email'', TStr ''url''])
   \<and> (\<exists>r. map_of (merge_properties
               [[(''value'', Prop (TList [TStr ''string'', TStr ''integer'']) None
                               (TList [TStr ''email'']) None None)],
                [(''value'', Prop (TStr ''number'') None (TStr ''timestamp'') None None)]]
               True) ''value'' = Some r
        \<and> p_type r = TList [TStr ''string'', TStr ''integer'', TStr ''number'']
        \<and> p_business_type r = TList [TStr ''email'', TStr ''timestamp''])
   \<and> (\<exists>r. map_of (merge_properties
               [[(''value'', Prop (TStr ''string'') None TNone None None)],
                [(''value'', Prop (TList [TStr ''integer'', TStr ''number'']) None
                               (TStr ''timestamp'') None None)]]
               True) ''value'' = Some r
        \<and> p_type r = TList [TStr ''integer'', TStr ''number'', TStr ''string'']
        \<and> p_business_type r = TStr ''timestamp'')"
proof (intro conjI)
  show "\<exists>r. map_of (merge_properties
               [[(''value'', Prop (TStr ''string'') (Some ''Field: value'') (TStr ''email'') None None)],
                [(''value'', Prop (TStr ''integer'') (Some ''Field: value'') (TStr ''url'') None None)]]
               True) ''value'' = Some r
        \<and> p_type r = TList [TStr ''string'', TStr ''integer'']
        \<and> p_business_type r = TList [TStr ''email'', TStr ''url'']"
    using merge_type_union_shapes
      [of "[(''value'', Prop (TStr ''string'') (Some ''Field: value'') (TStr ''email'') None None)]"
          "[(''value'', Prop (TStr ''integer'') (Some ''Field: value'') (TStr ''url'') None None)]"
          "''value''"
          "Prop (TStr ''string'') (Some ''Field: value'') (TStr ''email'') None None"
          "Prop (TStr ''integer'') (Some ''Field: value'') (TStr ''url'') None None" True]
    by auto
next
  show "\<exists>r. map_of (merge_properties
               [[(''value'', Prop (TList [TStr ''string'', TStr ''integer'']) None
                               (TList [TStr ''email'']) None None)],
                [(''value'', Prop (TStr ''number'') None (TStr ''timestamp'') None None)]]
               True) ''value'' = Some r
        \<and> p_type r = TList [TStr ''string'', TStr ''integer'', TStr ''number'']
        \<and> p_business_type r = TList [TStr ''email'', TStr ''timestamp'']"
    using merge_type_union_shapes
      [of "[(''value'', Prop (TList [TStr ''string'', TStr ''integer'']) None
                               (TList [TStr ''email'']) None None)]"
          "[(''value'', Prop (TStr ''number'') None (TStr ''timestamp'') None None)]"
          "''value''"
          "Prop (TList [TStr ''string'', TStr ''integer'']) None (TList [TStr ''email'']) None None"
          "Prop (TStr ''number'') None (TStr ''timestamp'') None None" True]
    by auto
next
  show "\<exists>r. map_of (merge_properties
               [[(''value'', Prop (TStr ''string'') None TNone None None)],
                [(''value'', Prop (TList [TStr ''integer'', TStr ''number'']) None
                               (TStr ''timestamp'') None None)]]
               True) ''value'' = Some r
        \<and> p_type r = TList [TStr ''integer'', TStr ''number'', TStr ''string'']
        \<and> p_business_type r = TStr ''timestamp''"
    using merge_type_union_shapes
      [of "[(''value'', Prop (TStr ''string'') None TNone None None)]"
          "[(''value'', Prop (TList [TStr ''integer'', TStr ''number'']) None
                               (TStr ''timestamp'') None None)]"
          "''value''"
          "Prop (TStr ''string'') None TNone None None"
          "Prop (TList [TStr ''integer'', TStr ''number'']) None (TStr ''timestamp'') None None" True]
    by auto
qed


text \<open>
  C5 as stated fails: two equal scalars stay a scalar (no 2-element list), a list merged
  with a list gets the incoming list appended as one nested element (no element-wise union),
  and an existing scalar that the incoming list already holds stays a scalar.
\<close>

theorem merge_type_union_counterexample:
  "merge_properties
     [[(''value'', Prop (TStr ''string'') (Some ''Field: value'') TNone None None)],
      [(''value'', Prop (TStr ''string'') (Some ''Field: value'') TNone None None)]] True
   = [(''value'', Prop (TStr ''string'') (Some ''Field: value'') TNone None None)]
   \<and> merge_properties
     [[(''value'', Prop (TList [TStr ''string'', TStr ''integer'']) None TNone None None)],
      [(''value'', Prop (TList [TStr ''integer'', TStr ''number'']) None TNone None None)]] True
   = [(''value'', Prop (TList [TStr ''string'', TStr ''integer'',
                               TList [TStr ''integer'', TStr ''number'']]) None TNone None None)]
   \<and> merge_properties
     [[(''value'', Prop (TStr ''string'') None TNone None None)],
      [(''value'', Prop (TList [TStr ''integer'', TStr ''string'']) None TNone None None)]] True
   = [(''value'', Prop (TStr ''string'') None TNone None None)]"
  by (simp add: merge_eval)


section \<open>Claims about the value classifier\<close>

text \<open>
  C6 (classifier totality): the claim says that \<open>infer_types\<close> returns for every input string.
  It does not. On \<open>n\<close> opening square brackets followed by \<open>n\<close> closing ones no check of lines
  23 to 70 accepts the string, line 77 calls \<^verbatim>\<open>json.loads\<close>, and when that raises
  \<^verbatim>\<open>RecursionError\<close>, as it does for \<open>n\<close> = 1000 under the default recursion limit, the handler
  of line 79 (\<^verbatim>\<open>JSONDecodeError\<close> and \<^verbatim>\<open>ValueError\<close> only) lets it through: \<open>infer_types\<close> raises
  \<^verbatim>\<open>RecursionError\<close>.
\<close>

theorem classifier_raises:
  assumes "0 < n" and "json_loads (nested n) = Raises RecursionError"
  shows "infer_types json_loads (nested n) = Inl RecursionError"
proof -
  from \<open>0 < n\<close> obtain m where n: "n = Suc m" by (cases n) auto
  have e: "nested n = CHR ''['' # (replicate m CHR ''['' @ replicate m CHR '']'') @ '']''"
    by (simp add: nested_def n replicate_append_same)
  show ?thesis using assms(2) unfolding e by (subst bracketed_reaches_loads) simp
qed


text \<open>
  C6 at a thousand opening brackets followed by a thousand closing ones, for a \<^verbatim>\<open>json.loads\<close>
  that raises \<^verbatim>\<open>RecursionError\<close> on a string that opens with a thousand brackets or more.
\<close>

theorem classifier_raises_witness:
  "infer_types (\<lambda>s. if 1000 \<le> length (takeWhile (\<lambda>c. c = CHR ''['') s)
                      then Raises RecursionError else Raises ValueError)
     (nested 1000) = Inl RecursionError"
proof -
  let ?loads = "\<lambda>s. if 1000 \<le> length (takeWhile (\<lambda>c. c = CHR ''['') s)
                     then Raises RecursionError else Raises ValueError"
  have "takeWhile (\<lambda>c. c = CHR ''['') (nested 1000) = replicate 1000 CHR ''[''"
    by (rule takeWhile_nested)
  then have "?loads (nested 1000) = Raises RecursionError" by simp
  with classifier_raises [of 1000 ?loads] show ?thesis by simp
qed


text \<open>
  C9 (boolean shadowing): the inputs \<^verbatim>\<open>"0"\<close> and \<^verbatim>\<open>"1"\<close> classify as (none, boolean), although
  \<^verbatim>\<open>int\<close> reads both and both lie in the Unix-timestamp range: the boolean check of line 23
  comes first.
\<close>

theorem boolean_shadowing:
  "infer_types json_loads ''0'' = Inr (None, ''boolean'')
   \<and> infer_types json_loads ''1'' = Inr (None, ''boolean'')
   \<and> py_int ''0'' = Some 0 \<and> py_int ''1'' = Some 1
   \<and> is_timestamp ''0'' \<and> is_timestamp ''1''"
  by (simp add: infer_defs rx_defs py_defs)


text \<open>
  C10 (whitespace invariance): for every input string, the classification of the string
  equals the classification of the string with leading and trailing white space removed.
\<close>

theorem classify_whitespace_invariant:
  "infer_types json_loads v = infer_types json_loads (strip v)"
proof (cases "strip v = []")
  case True
  then show ?thesis by (simp add: infer_types_def)
next
  case False
  then have "v \<noteq> []" by (auto simp: strip_def)
  with False show ?thesis by (simp add: infer_types_def strip_strip)
qed


section \<open>Claims about the generators\<close>

text \<open>
  C3 (tabular scenario), as the code has it: on the header \<^verbatim>\<open>name,age,email\<close> with the rows
  (John, 30, john@x.com) and (Jane, 25, jane@x.com) the generator returns a schema in which
  \<^verbatim>\<open>email\<close> has the business type \<^verbatim>\<open>email\<close>, \<^verbatim>\<open>age\<close> has the type \<^verbatim>\<open>number\<close> and the business type
  \<^verbatim>\<open>timestamp\<close> (30 and 25 lie in the Unix-timestamp range, which is checked before the
  integer), and \<^verbatim>\<open>required\<close> is name, age, email.
\<close>

theorem tabular_scenario:
  "\<exists>s. generate_csv_schema json_loads (Some people) 100 = Inr s
       \<and> map_option p_business_type (map_of (properties s) ''email'') = Some (TStr ''email'')
       \<and> map_option p_type (map_of (properties s) ''age'') = Some (TStr ''number'')
       \<and> map_option p_business_type (map_of (properties s) ''age'') = Some (TStr ''timestamp'')
       \<and> required s = [''name'', ''age'', ''email'']"
  by (simp add: people_generated)


text \<open>
  C3 as the specification has it fails: the type of \<^verbatim>\<open>age\<close> is \<^verbatim>\<open>number\<close>, not \<^verbatim>\<open>integer\<close>.
\<close>

theorem tabular_scenario_counterexample:
  "\<forall>json_loads. \<exists>s. generate_csv_schema json_loads (Some people) 100 = Inr s
       \<and> map_option p_type (map_of (properties s) ''age'') \<noteq> Some (TStr ''integer'')"
  by (simp add: people_generated)






text \<open>
  C2 (heterogeneous field), as the code has it: on the three records of scenario 3 the
  generator returns a schema in which the type of \<^verbatim>\<open>value\<close> is the list \<^verbatim>\<open>string\<close>, \<^verbatim>\<open>number\<close>
  when business types are inferred (the default): 123 is classified a timestamp of type
  \<^verbatim>\<open>number\<close>, which line 132 puts in the place of \<^verbatim>\<open>integer\<close>. With
  \<^verbatim>\<open>use_business_types=False\<close> the list is \<^verbatim>\<open>string\<close>, \<^verbatim>\<open>integer\<close>, \<^verbatim>\<open>number\<close>. Neither list repeats
  a tag.
\<close>

theorem heterogeneous_scenario:
  "(\<exists>s. generate_jsonl_schema json_loads json_dumps (Suc recursion_limit) (Some mixed) 100 True
          = Inr s
        \<and> map_option p_type (map_of (properties s) ''value'')
          = Some (TList [TStr ''string'', TStr ''number'']))
   \<and> (\<exists>s. generate_jsonl_schema json_loads json_dumps (Suc recursion_limit) (Some mixed) 100 False
          = Inr s
        \<and> map_option p_type (map_of (properties s) ''value'')
          = Some (TList [TStr ''string'', TStr ''integer'', TStr ''number'']))"
  by (simp add: mixed_def jsonl_defs show_int_123 infer_types_text infer_types_123
        infer_types_45_67 merge_eval)


text \<open>
  C2 as the specification has it fails for the default run: the list has no tag \<^verbatim>\<open>integer\<close>.
\<close>

theorem heterogeneous_scenario_counterexample:
  "\<forall>json_loads json_dumps.
     \<exists>s ts. generate_jsonl_schema json_loads json_dumps 1000 (Some mixed) 100 True = Inr s
           \<and> map_option p_type (map_of (properties s) ''value'') = Some (TList ts)
           \<and> TStr ''integer'' \<notin> set ts"
  by (simp add: mixed_def jsonl_defs show_int_123 infer_types_text infer_types_123
        infer_types_45_67 merge_eval)


text \<open>
  C7 (metadata of a line-delimited JSON schema), as the code has it: a schema the generator
  returns has a \<^verbatim>\<open>metadata\<close> object exactly when at least one object record was processed. Then
  \<^verbatim>\<open>num_rows\<close> is the number of lines read that decoded to a JSON value, an object or not
  (blank lines and lines that do not decode are not counted), \<^verbatim>\<open>num_fields\<close> is the number of
  keys of \<^verbatim>\<open>properties\<close> and \<^verbatim>\<open>file_type\<close> is \<^verbatim>\<open>jsonl\<close>. When no object record was processed the
  schema has no \<^verbatim>\<open>metadata\<close> key, and \<^verbatim>\<open>properties\<close> and \<^verbatim>\<open>required\<close> are empty.
\<close>

theorem jsonl_metadata:
  assumes "generate_jsonl_schema json_loads json_dumps recursion_limit (Some ls) sample_rows
             use_business_types = Inr s"
  shows "if list_ex is_record (lines_read sample_rows 0 ls)
         then metadata s
              = Some \<lparr>num_rows = int (length (filter is_decoded (lines_read sample_rows 0 ls))),
                      num_fields = length (properties s), file_type = ''jsonl''\<rparr>
         else metadata s = None \<and> properties s = [] \<and> required s = []"
proof -
  let ?st0 = "\<lparr>object_schemas = [], all_field_presence = [], total_rows = 0, row_count = 0\<rparr>"
  from assms obtain st where
    r: "read_lines json_loads json_dumps use_business_types recursion_limit sample_rows ls ?st0
        = Inr st"
    by (auto simp: generate_jsonl_schema_def split: sum.splits)
  from read_lines_counts [OF r] have
    t: "total_rows st = int (length (filter is_decoded (lines_read sample_rows 0 ls)))"
    and o: "length (object_schemas st) = length (filter is_record (lines_read sample_rows 0 ls))"
    by simp_all
  have "object_schemas st = [] \<longleftrightarrow> filter is_record (lines_read sample_rows 0 ls) = []"
    using o by (metis length_0_conv)
  then have e: "object_schemas st = [] \<longleftrightarrow> \<not> list_ex is_record (lines_read sample_rows 0 ls)"
    by (simp add: list_ex_iff filter_empty_conv)
  show ?thesis
  proof (cases "object_schemas st = []")
    case True
    with assms r e show ?thesis by (auto simp: generate_jsonl_schema_def)
  next
    case False
    with assms r e t show ?thesis by (auto simp: generate_jsonl_schema_def Let_def)
  qed
qed


text \<open>
  C7 at the three records of scenario 3, read without business types: the schema is returned
  and its metadata counts three rows and one field.
\<close>

theorem jsonl_metadata_witness:
  "\<forall>json_loads json_dumps.
     \<exists>s. generate_jsonl_schema json_loads json_dumps 1000 (Some mixed) 100 False = Inr s
        \<and> metadata s = Some \<lparr>num_rows = 3, num_fields = 1, file_type = ''jsonl''\<rparr>"
proof (intro allI)
  fix json_loads :: "string \<Rightarrow> outcome" and json_dumps :: "json \<Rightarrow> py_error + string"
  obtain s where
    g: "generate_jsonl_schema json_loads json_dumps 1000 (Some mixed) 100 False = Inr s"
    and p: "length (properties s) = 1"
    by (simp add: mixed_def jsonl_defs merge_eval)
  from jsonl_metadata [OF g] p
  have "metadata s = Some \<lparr>num_rows = 3, num_fields = 1, file_type = ''jsonl''\<rparr>"
    by (simp add: mixed_def)
  with g show "\<exists>s. generate_jsonl_schema json_loads json_dumps 1000 (Some mixed) 100 False = Inr s
        \<and> metadata s = Some \<lparr>num_rows = 3, num_fields = 1, file_type = ''jsonl''\<rparr>"
    by blast
qed


text \<open>
  C7 as the specification has it fails for a source without a decodable record: for the
  empty file, and for a file of one blank line and one line that is not JSON, the generator
  returns a schema without \<^verbatim>\<open>metadata\<close> (lines 344-351).
\<close>

theorem jsonl_metadata_counterexample:
  "\<forall>json_loads json_dumps.
     (\<exists>s. generate_jsonl_schema json_loads json_dumps 1000 (Some []) 100 True = Inr s
         \<and> metadata s = None)
     \<and> (\<exists>s. generate_jsonl_schema json_loads json_dumps 1000 (Some [Blank, Undecodable]) 100 True
             = Inr s
           \<and> metadata s = None)"
  by (simp add: generate_jsonl_schema_def)








end
